theory Spec2Isabelle
  imports Main "HOL-Library.AList"
begin

section \<open>Values of the transcript: JSON as Python sees it\<close>

text \<open>
  The hook \<^verbatim>\<open>claude_code/keywordsai_hook.py\<close> reads a transcript of JSON
  lines. Every record is what \<^verbatim>\<open>json.loads\<close> returns: \<^verbatim>\<open>None\<close>, a bool, an
  int, a str, a list or a dict with string keys. A dict is an association list in
  insertion order; a lookup takes the first binding of a key and an assignment
  replaces the binding in place or appends a new one, as a Python dict does.
  Python strings are modelled as \<^typ>\<open>string\<close>, integers as unbounded
  \<^typ>\<open>int\<close>. Floating-point numbers of a transcript are outside the model;
  the two floats the compiler itself computes (latencies) are kept symbolic.
\<close>

datatype json =
    JNull
  | JBool bool
  | JInt int
  | JStr string
  | JArr "json list"
  | JObj "(string \<times> json) list"

type_synonym dict = "(string \<times> json) list"

datatype py_error = AttributeError | TypeError | OverflowError | IndexError

definition bind_r :: "py_error + 'a \<Rightarrow> ('a \<Rightarrow> py_error + 'b) \<Rightarrow> py_error + 'b" where
  "bind_r m f = (case m of Inl e \<Rightarrow> Inl e | Inr x \<Rightarrow> f x)"

text \<open>\<^verbatim>\<open>bool(x)\<close>: what \<^verbatim>\<open>if x\<close> and \<^verbatim>\<open>x or y\<close> test.\<close>

fun py_truthy :: "json \<Rightarrow> bool" where
  "py_truthy JNull = False"
| "py_truthy (JBool b) = b"
| "py_truthy (JInt n) = (n \<noteq> 0)"
| "py_truthy (JStr s) = (s \<noteq> [])"
| "py_truthy (JArr xs) = (xs \<noteq> [])"
| "py_truthy (JObj d) = (d \<noteq> [])"

definition py_or :: "json \<Rightarrow> json \<Rightarrow> json" where
  "py_or a b = (if py_truthy a then a else b)"

text \<open>\<^verbatim>\<open>d.get(k)\<close> and \<^verbatim>\<open>d.get(k, default)\<close> on a dict.\<close>

definition dget :: "dict \<Rightarrow> string \<Rightarrow> json" where
  "dget d k = (case map_of d k of None \<Rightarrow> JNull | Some v \<Rightarrow> v)"

definition dget_default :: "dict \<Rightarrow> string \<Rightarrow> json \<Rightarrow> json" where
  "dget_default d k dflt = (case map_of d k of None \<Rightarrow> dflt | Some v \<Rightarrow> v)"

definition has_key :: "dict \<Rightarrow> string \<Rightarrow> bool" where
  "has_key d k = (map_of d k \<noteq> None)"

text \<open>\<^verbatim>\<open>isinstance(item, dict) and item.get("type") == tag\<close>.\<close>

fun is_typed :: "string \<Rightarrow> json \<Rightarrow> bool" where
  "is_typed tag (JObj d) = (dget d ''type'' = JStr tag)"
| "is_typed tag _ = False"

section \<open>Reading a record\<close>

text \<open>The fields of a record that is a dict, and of its \<^verbatim>\<open>message\<close>.\<close>

definition record_of :: "json \<Rightarrow> dict" where
  "record_of p = (case p of JObj d \<Rightarrow> d | _ \<Rightarrow> [])"

definition message_of :: "json \<Rightarrow> dict" where
  "message_of p = (case dget (record_of p) ''message'' of JObj m \<Rightarrow> m | _ \<Rightarrow> [])"

text \<open>
  \<^verbatim>\<open>get_content\<close>: the content of \<^verbatim>\<open>msg["message"]\<close> when the record has
  that key, else the record's own content. \<^verbatim>\<open>msg["message"].get\<close> raises
  AttributeError when the value under \<^verbatim>\<open>"message"\<close> is not a dict.
\<close>

fun get_content :: "json \<Rightarrow> py_error + json" where
  "get_content (JObj d) =
     (if has_key d ''message'' then
        (case dget d ''message'' of
           JObj m \<Rightarrow> Inr (dget m ''content'')
         | _ \<Rightarrow> Inl AttributeError)
      else Inr (dget d ''content''))"
| "get_content _ = Inr JNull"

definition is_tool_result :: "json \<Rightarrow> py_error + bool" where
  "is_tool_result msg =
     bind_r (get_content msg) (\<lambda>content.
       case content of
         JArr items \<Rightarrow> Inr (list_ex (is_typed ''tool_result'') items)
       | _ \<Rightarrow> Inr False)"

definition get_tool_calls :: "json \<Rightarrow> py_error + json list" where
  "get_tool_calls msg =
     bind_r (get_content msg) (\<lambda>content.
       case content of
         JArr items \<Rightarrow> Inr (filter (is_typed ''tool_use'') items)
       | _ \<Rightarrow> Inr [])"

text \<open>\<^verbatim>\<open>"\n".join(parts)\<close> raises TypeError on a part that is not a str.\<close>

fun py_join :: "json list \<Rightarrow> py_error + string" where
  "py_join [] = Inr []"
| "py_join [JStr s] = Inr s"
| "py_join (JStr s # p # ps) =
     bind_r (py_join (p # ps)) (\<lambda>r. Inr (s @ [CHR 0x0A] @ r))"
| "py_join (_ # ps) = Inl TypeError"

fun text_parts :: "json list \<Rightarrow> json list" where
  "text_parts [] = []"
| "text_parts (JObj d # items) =
     (if dget d ''type'' = JStr ''text''
      then dget_default d ''text'' (JStr []) # text_parts items
      else text_parts items)"
| "text_parts (JStr s # items) = JStr s # text_parts items"
| "text_parts (_ # items) = text_parts items"

definition get_text_content :: "json \<Rightarrow> py_error + string" where
  "get_text_content msg =
     bind_r (get_content msg) (\<lambda>content.
       case content of
         JStr s \<Rightarrow> Inr s
       | JArr items \<Rightarrow> py_join (text_parts items)
       | _ \<Rightarrow> Inr [])"

section \<open>Merging the fragments of one assistant message\<close>

text \<open>
  \<^verbatim>\<open>str(x)\<close> of a JSON value: a str is itself, the atoms print as Python prints
  them; how a list or a dict prints (\<^verbatim>\<open>repr\<close>) is a parameter.
\<close>

fun digit_char :: "nat \<Rightarrow> char" where
  "digit_char n = char_of (48 + n)"

function str_of_nat :: "nat \<Rightarrow> string" where
  "str_of_nat n = (if n < 10 then [digit_char n] else str_of_nat (n div 10) @ [digit_char (n mod 10)])"
  by pat_completeness auto
termination
  by (relation "measure id") auto

declare str_of_nat.simps [simp del]

definition str_of_int :: "int \<Rightarrow> string" where
  "str_of_int i = (if i < 0 then CHR ''-'' # str_of_nat (nat (- i)) else str_of_nat (nat i))"

fun py_str :: "(json \<Rightarrow> string) \<Rightarrow> json \<Rightarrow> string" where
  "py_str rp (JStr s) = s"
| "py_str rp JNull = ''None''"
| "py_str rp (JBool b) = (if b then ''True'' else ''False'')"
| "py_str rp (JInt n) = str_of_int n"
| "py_str rp v = rp v"

text \<open>
  \<^verbatim>\<open>merge_assistant_parts\<close>. The loop collects the content of every part: a list
  is appended block by block, any other truthy content becomes one text block.
  The result is a copy of the first part with the collected list as its content.
\<close>

fun merged_content :: "(json \<Rightarrow> string) \<Rightarrow> json list \<Rightarrow> py_error + json list" where
  "merged_content rp [] = Inr []"
| "merged_content rp (part # parts) =
     bind_r (get_content part) (\<lambda>content.
     bind_r (merged_content rp parts) (\<lambda>rest.
       case content of
         JArr blocks \<Rightarrow> Inr (blocks @ rest)
       | _ \<Rightarrow>
           if py_truthy content
           then Inr (JObj [(''type'', JStr ''text''), (''text'', JStr (py_str rp content))] # rest)
           else Inr rest))"

text \<open>
  \<^verbatim>\<open>parts[0].copy()\<close> raises AttributeError unless the first part is a dict (a
  list copies, and then fails at the string index with TypeError).
\<close>

definition merge_assistant_parts :: "(json \<Rightarrow> string) \<Rightarrow> json list \<Rightarrow> py_error + json" where
  "merge_assistant_parts rp parts =
     (if parts = [] then Inr (JObj [])
      else
        bind_r (merged_content rp parts) (\<lambda>mc.
          case hd parts of
            JObj d \<Rightarrow>
              (if has_key d ''message'' then
                 (case dget d ''message'' of
                    JObj m \<Rightarrow>
                      Inr (JObj (AList.update ''message''
                                  (JObj (AList.update ''content'' (JArr mc) m)) d))
                  | _ \<Rightarrow> Inl AttributeError)
               else Inr (JObj (AList.update ''content'' (JArr mc) d)))
          | JArr xs \<Rightarrow> Inl TypeError
          | _ \<Rightarrow> Inl AttributeError))"


section \<open>Library functions and the clock\<close>

text \<open>
  What the hook takes from Python's library is a parameter of the model:
  \<^verbatim>\<open>json.loads\<close> (\<open>None\<close> when it raises JSONDecodeError), \<^verbatim>\<open>json.dumps\<close>
  with and without \<^verbatim>\<open>indent=2\<close>, \<^verbatim>\<open>repr\<close> of a list or dict, and
  \<^verbatim>\<open>datetime.fromisoformat\<close> (\<open>None\<close> when it raises ValueError). A datetime is
  naive or aware, and carries its microseconds since the epoch.
\<close>

datatype datetime = Naive int | Aware int

record env =
  json_loads :: "string \<Rightarrow> json option"
  json_dumps :: "json \<Rightarrow> string"
  json_dumps_indent :: "json \<Rightarrow> string"
  py_repr :: "json \<Rightarrow> string"
  fromisoformat :: "string \<Rightarrow> datetime option"

text \<open>
  The two readings of \<^verbatim>\<open>datetime.now(timezone.utc)\<close> one compiler call can make
  (lines 328 and 329), already formatted.
\<close>

record clock_reads =
  now_start :: string
  now_stamp :: string

text \<open>
  The floats the compiler computes: \<^verbatim>\<open>timedelta.total_seconds()\<close> of a difference
  in microseconds, and \<^verbatim>\<open>duration_ms / 1000.0\<close>. A span field holds a JSON value
  or such a float.
\<close>

datatype pyfloat = Total_seconds int | Div_1000 int

datatype pyval = PJ json | PF pyfloat

type_synonym span = "(string \<times> pyval) list"

abbreviation NL :: string where
  "NL \<equiv> [CHR 0x0A]"

section \<open>Formatting tool input and output\<close>

text \<open>\<^verbatim>\<open>len(x)\<close>: TypeError on None, a bool or an int.\<close>

fun py_len :: "json \<Rightarrow> py_error + nat" where
  "py_len (JStr s) = Inr (length s)"
| "py_len (JArr xs) = Inr (length xs)"
| "py_len (JObj d) = Inr (length d)"
| "py_len _ = Inl TypeError"

definition dump_truncated :: "env \<Rightarrow> json \<Rightarrow> string" where
  "dump_truncated E v =
     (let result = json_dumps_indent E v
      in if length result > 4000 then take 4000 result @ NL @ ''... (truncated)'' else result)"

definition file_path_of :: "dict \<Rightarrow> json" where
  "file_path_of d = dget_default d ''file_path'' (dget_default d ''path'' (JStr []))"

text \<open>
  The Write/Edit/MultiEdit branch of \<^verbatim>\<open>format_tool_input\<close> on a dict. A content
  longer than 2000 is sliced and extended by \<^verbatim>\<open>"..."\<close>, which only a str allows.
\<close>

definition format_write_input :: "env \<Rightarrow> dict \<Rightarrow> py_error + string" where
  "format_write_input E d =
     (let content = dget_default d ''content'' (JStr []);
          result = ''File: '' @ py_str (py_repr E) (file_path_of d) @ NL
      in if py_truthy content then
           bind_r (py_len content) (\<lambda>n.
             if n > 2000 then
               (case content of
                  JStr s \<Rightarrow> Inr (take 4000 (result @ ''Content:'' @ NL @ take 2000 s @ ''...''))
                | _ \<Rightarrow> Inl TypeError)
             else Inr (take 4000 (result @ ''Content:'' @ NL @ py_str (py_repr E) content)))
         else Inr (take 4000 result))"

definition format_tool_input :: "env \<Rightarrow> json \<Rightarrow> json \<Rightarrow> py_error + string" where
  "format_tool_input E tool_name tool_input =
     (if \<not> py_truthy tool_input then Inr []
      else
        (case tool_input of
           JObj d \<Rightarrow>
             if tool_name = JStr ''Write'' \<or> tool_name = JStr ''Edit'' \<or> tool_name = JStr ''MultiEdit''
             then format_write_input E d
             else if tool_name = JStr ''Read''
             then Inr (''File: '' @ py_str (py_repr E) (file_path_of d))
             else if tool_name = JStr ''Bash'' \<or> tool_name = JStr ''Shell''
             then Inr (''Command: '' @ py_str (py_repr E) (dget_default d ''command'' (JStr [])))
             else Inr (dump_truncated E tool_input)
         | _ \<Rightarrow> Inr (dump_truncated E tool_input)))"

text \<open>
  The loop of \<^verbatim>\<open>format_tool_output\<close> over a list of blocks; the result is \<^verbatim>\<open>parts\<close>; a \<^verbatim>\<open>break\<close> ends the list.
\<close>

definition truncated_part :: "json \<Rightarrow> nat \<Rightarrow> py_error + json list" where
  "truncated_part text total_length =
     (let remaining = 4000 - int total_length
      in if remaining > 100 then
           (case text of
              JStr s \<Rightarrow> Inr [JStr (take (nat remaining) s @ ''... (truncated)'')]
            | _ \<Rightarrow> Inl TypeError)
         else Inr [])"

fun output_parts :: "env \<Rightarrow> json list \<Rightarrow> nat \<Rightarrow> py_error + json list" where
  "output_parts E [] total_length = Inr []"
| "output_parts E (JObj d # items) total_length =
     (if dget d ''type'' = JStr ''text'' then
        (let text = dget_default d ''text'' (JStr [])
         in bind_r (py_len text) (\<lambda>n.
              if total_length + n > 4000 then truncated_part text total_length
              else bind_r (output_parts E items (total_length + n)) (\<lambda>rest. Inr (text # rest))))
      else if dget d ''type'' = JStr ''image'' then
        bind_r (output_parts E items total_length) (\<lambda>rest. Inr (JStr ''[Image output]'' # rest))
      else
        (let text = take 500 (py_str (py_repr E) (JObj d))
         in bind_r (output_parts E items (total_length + length text)) (\<lambda>rest. Inr (JStr text # rest))))"
| "output_parts E (JStr s # items) total_length =
     (if total_length + length s > 4000 then truncated_part (JStr s) total_length
      else bind_r (output_parts E items (total_length + length s)) (\<lambda>rest. Inr (JStr s # rest)))"
| "output_parts E (_ # items) total_length = output_parts E items total_length"

definition format_tool_output :: "env \<Rightarrow> json \<Rightarrow> json \<Rightarrow> py_error + string" where
  "format_tool_output E tool_name tool_output =
     (if \<not> py_truthy tool_output then Inr []
      else
        (case tool_output of
           JStr s \<Rightarrow>
             Inr (if length s > 4000 then take 4000 s @ NL @ ''... (truncated)'' else s)
         | JArr items \<Rightarrow> bind_r (output_parts E items 0) py_join
         | JObj d \<Rightarrow>
             if has_key d ''success''
             then Inr (''Success: '' @ py_str (py_repr E) (dget d ''success'') @ NL @
                       py_str (py_repr E) (dget_default d ''message'' (JStr [])))
             else Inr (dump_truncated E tool_output)
         | _ \<Rightarrow> Inr (take 4000 (py_str (py_repr E) tool_output))))"

section \<open>Timestamps\<close>

text \<open>
  \<^verbatim>\<open>parse_timestamp\<close> catches ValueError and AttributeError: a value that is not a
  str (no \<^verbatim>\<open>endswith\<close>) and a str that is not ISO both give None.
\<close>

definition replace_Z :: "string \<Rightarrow> string" where
  "replace_Z s = concat (map (\<lambda>c. if c = CHR ''Z'' then ''+00:00'' else [c]) s)"

definition parse_timestamp :: "env \<Rightarrow> json \<Rightarrow> datetime option" where
  "parse_timestamp E ts =
     (case ts of
        JStr s \<Rightarrow>
          fromisoformat E
            (replace_Z (if s \<noteq> [] \<and> last s = CHR ''Z'' then butlast s @ ''+00:00'' else s))
      | _ \<Rightarrow> None)"

definition parse_if_truthy :: "env \<Rightarrow> json \<Rightarrow> datetime option" where
  "parse_if_truthy E ts = (if py_truthy ts then parse_timestamp E ts else None)"

text \<open>
  \<^verbatim>\<open>(assistant_time - user_time).total_seconds()\<close>: subtracting a naive from an
  aware datetime, or the reverse, raises TypeError.
\<close>

fun latency_between :: "datetime \<Rightarrow> datetime \<Rightarrow> py_error + pyfloat" where
  "latency_between (Naive a) (Naive u) = Inr (Total_seconds (a - u))"
| "latency_between (Aware a) (Aware u) = Inr (Total_seconds (a - u))"
| "latency_between _ _ = Inl TypeError"

section \<open>The span compiler\<close>

subsection \<open>Names\<close>

definition trace_id :: "string \<Rightarrow> int \<Rightarrow> string" where
  "trace_id session_id turn_num = session_id @ ''_turn_'' @ str_of_int turn_num"

definition workflow_name :: "string \<Rightarrow> string" where
  "workflow_name session_id = ''claudecode_'' @ session_id"

definition chat_span_id :: "int \<Rightarrow> string" where
  "chat_span_id turn_num = ''turn_'' @ str_of_int turn_num @ ''_chat''"

subsection \<open>The first assistant message\<close>

record assistant_info =
  info_model :: json
  info_usage :: json
  info_request_id :: json
  info_stop_reason :: json
  info_timestamp :: json
  info_time :: "datetime option"

definition no_info :: assistant_info where
  "no_info = \<lparr>info_model = JStr ''claude'', info_usage = JNull, info_request_id = JNull,
              info_stop_reason = JNull, info_timestamp = JNull, info_time = None\<rparr>"

text \<open>
  Lines 311 to 325. The guard tests that the first message is a non-empty dict
  with the key \<^verbatim>\<open>message\<close>; \<^verbatim>\<open>msg_obj.get\<close> then raises AttributeError when
  the value under that key is not a dict.
\<close>

definition first_assistant_info :: "env \<Rightarrow> json list \<Rightarrow> py_error + assistant_info" where
  "first_assistant_info E assistant_msgs =
     (case assistant_msgs of
        [] \<Rightarrow> Inr no_info
      | first_assistant_msg # _ \<Rightarrow>
          (case first_assistant_msg of
             JObj d \<Rightarrow>
               if has_key d ''message'' then
                 (case dget d ''message'' of
                    JObj msg_obj \<Rightarrow>
                      Inr \<lparr>info_model = dget_default msg_obj ''model'' (JStr ''claude''),
                           info_usage = dget msg_obj ''usage'',
                           info_request_id = dget msg_obj ''requestId'',
                           info_stop_reason = dget msg_obj ''stop_reason'',
                           info_timestamp = dget d ''timestamp'',
                           info_time = parse_if_truthy E (dget d ''timestamp'')\<rparr>
                  | _ \<Rightarrow> Inl AttributeError)
               else Inr no_info
           | _ \<Rightarrow> Inr no_info))"

definition user_timestamp_of :: "json \<Rightarrow> py_error + json" where
  "user_timestamp_of user_msg =
     (case user_msg of JObj d \<Rightarrow> Inr (dget d ''timestamp'') | _ \<Rightarrow> Inl AttributeError)"

definition root_latency :: "datetime option \<Rightarrow> datetime option \<Rightarrow> py_error + pyfloat option" where
  "root_latency user_time assistant_time =
     (case (user_time, assistant_time) of
        (Some u, Some a) \<Rightarrow> bind_r (latency_between a u) (\<lambda>l. Inr (Some l))
      | _ \<Rightarrow> Inr None)"

subsection \<open>Usage\<close>

text \<open>
  \<^verbatim>\<open>a + b\<close> and \<^verbatim>\<open>x > 0\<close> on JSON values. A bool counts as 0 or 1; two strs or
  two lists concatenate; everything else raises TypeError, and so does the
  comparison of a str, a list, a dict or None with 0.
\<close>

fun py_add :: "json \<Rightarrow> json \<Rightarrow> py_error + json" where
  "py_add (JInt a) (JInt b) = Inr (JInt (a + b))"
| "py_add (JInt a) (JBool b) = Inr (JInt (a + (if b then 1 else 0)))"
| "py_add (JBool a) (JInt b) = Inr (JInt ((if a then 1 else 0) + b))"
| "py_add (JBool a) (JBool b) = Inr (JInt ((if a then 1 else 0) + (if b then 1 else 0)))"
| "py_add (JStr a) (JStr b) = Inr (JStr (a @ b))"
| "py_add (JArr a) (JArr b) = Inr (JArr (a @ b))"
| "py_add _ _ = Inl TypeError"

fun py_positive :: "json \<Rightarrow> py_error + bool" where
  "py_positive (JInt a) = Inr (a > 0)"
| "py_positive (JBool a) = Inr a"
| "py_positive _ = Inl TypeError"

text \<open>
  Lines 363 to 384: \<^verbatim>\<open>usage_obj\<close>, the empty dict standing for None (a built
  \<^verbatim>\<open>usage_obj\<close> is never empty). A truthy \<^verbatim>\<open>usage\<close> that is not a dict has no
  \<^verbatim>\<open>get\<close>.
\<close>

definition usage_fields :: "json \<Rightarrow> py_error + dict" where
  "usage_fields usage =
     (if \<not> py_truthy usage then Inr []
      else
        (case usage of
           JObj u \<Rightarrow>
             (let prompt_tokens = dget_default u ''input_tokens'' (JInt 0);
                  completion_tokens = dget_default u ''output_tokens'' (JInt 0);
                  cache_creation = dget_default u ''cache_creation_input_tokens'' (JInt 0);
                  cache_read = dget_default u ''cache_read_input_tokens'' (JInt 0)
              in bind_r (py_add prompt_tokens completion_tokens) (\<lambda>total_tokens.
                 bind_r (py_positive total_tokens) (\<lambda>has_total.
                 bind_r (py_positive cache_creation) (\<lambda>has_creation.
                 bind_r (py_positive cache_read) (\<lambda>has_read.
                   (let details =
                          (if has_creation then [(''cache_creation_tokens'', cache_creation)] else []) @
                          (if has_read then [(''cached_tokens'', cache_read)] else [])
                    in Inr ([(''prompt_tokens'', prompt_tokens),
                             (''completion_tokens'', completion_tokens)] @
                            (if has_total then [(''total_tokens'', total_tokens)] else []) @
                            (if has_creation then [(''cache_creation_prompt_tokens'', cache_creation)] else []) @
                            (if details \<noteq> [] then [(''prompt_tokens_details'', JObj details)] else []))))))))
         | _ \<Rightarrow> Inl AttributeError))"

definition service_tier_of :: "json \<Rightarrow> json" where
  "service_tier_of usage = (case usage of JObj u \<Rightarrow> dget u ''service_tier'' | _ \<Rightarrow> JNull)"

definition turn_metadata :: "int \<Rightarrow> assistant_info \<Rightarrow> dict" where
  "turn_metadata turn_num info =
     [(''claude_code_turn'', JInt turn_num)] @
     (if py_truthy (info_request_id info) then [(''request_id'', info_request_id info)] else []) @
     (if py_truthy (info_stop_reason info) then [(''stop_reason'', info_stop_reason info)] else []) @
     (if py_truthy (info_usage info) \<and> py_truthy (service_tier_of (info_usage info))
      then [(''service_tier'', service_tier_of (info_usage info))] else [])"

subsection \<open>The root span\<close>

definition chat_span ::
  "env \<Rightarrow> string \<Rightarrow> int \<Rightarrow> string \<Rightarrow> string \<Rightarrow> assistant_info \<Rightarrow> json \<Rightarrow> json \<Rightarrow>
   dict \<Rightarrow> pyfloat option \<Rightarrow> span" where
  "chat_span E session_id turn_num user_text final_output info timestamp_str start_time_str
     usage_obj latency =
     (let prompt_messages =
            (if user_text \<noteq> [] then [JObj [(''role'', JStr ''user''), (''content'', JStr user_text)]]
             else []);
          completion_message =
            (if final_output \<noteq> []
             then JObj [(''role'', JStr ''assistant''), (''content'', JStr final_output)]
             else JNull)
      in [(''trace_unique_id'', PJ (JStr (trace_id session_id turn_num))),
          (''thread_identifier'', PJ (JStr (workflow_name session_id))),
          (''span_unique_id'', PJ (JStr (chat_span_id turn_num))),
          (''span_parent_id'', PJ JNull),
          (''span_name'', PJ (JStr (''claudecode_'' @ trace_id session_id turn_num))),
          (''span_workflow_name'', PJ (JStr (workflow_name session_id))),
          (''log_type'', PJ (JStr ''agent'')),
          (''input'', PJ (JStr (if prompt_messages \<noteq> [] then json_dumps E (JArr prompt_messages) else []))),
          (''output'', PJ (JStr (if py_truthy completion_message then json_dumps E completion_message else []))),
          (''prompt_messages'', PJ (JArr prompt_messages)),
          (''completion_message'', PJ completion_message),
          (''model'', PJ (info_model info)),
          (''timestamp'', PJ timestamp_str),
          (''start_time'', PJ start_time_str),
          (''metadata'', PJ (JObj (turn_metadata turn_num info)))] @
         map (\<lambda>(k, v). (k, PJ v)) usage_obj @
         (case latency of None \<Rightarrow> [] | Some l \<Rightarrow> [(''latency'', PF l)]))"

subsection \<open>Thinking spans\<close>

definition thinking_span :: "string \<Rightarrow> int \<Rightarrow> nat \<Rightarrow> json \<Rightarrow> json \<Rightarrow> span" where
  "thinking_span session_id turn_num k thinking_timestamp thinking_text =
     [(''trace_unique_id'', PJ (JStr (trace_id session_id turn_num))),
      (''span_unique_id'', PJ (JStr (''turn_'' @ str_of_int turn_num @ ''_thinking_'' @ str_of_nat k))),
      (''span_parent_id'', PJ (JStr (chat_span_id turn_num))),
      (''span_name'', PJ (JStr (''Thinking '' @ str_of_nat k))),
      (''span_workflow_name'', PJ (JStr (workflow_name session_id))),
      (''log_type'', PJ (JStr ''generation'')),
      (''input'', PJ (JStr [])),
      (''output'', PJ thinking_text),
      (''timestamp'', PJ thinking_timestamp),
      (''start_time'', PJ thinking_timestamp)]"

definition thinking_text_of :: "json \<Rightarrow> json" where
  "thinking_text_of item = dget_default (record_of item) ''thinking'' (JStr [])"

text \<open>The inner loop of lines 434 to 451; \<open>acc\<close> is \<^verbatim>\<open>thinking_spans\<close>.\<close>

fun thinking_items :: "string \<Rightarrow> int \<Rightarrow> json \<Rightarrow> json list \<Rightarrow> span list \<Rightarrow> span list" where
  "thinking_items session_id turn_num ts [] acc = acc"
| "thinking_items session_id turn_num ts (item # items) acc =
     thinking_items session_id turn_num ts items
       (if is_typed ''thinking'' item \<and> py_truthy (thinking_text_of item)
        then acc @ [thinking_span session_id turn_num (length acc + 1) ts (thinking_text_of item)]
        else acc)"

fun thinking_loop ::
  "string \<Rightarrow> int \<Rightarrow> json \<Rightarrow> json list \<Rightarrow> span list \<Rightarrow> py_error + span list" where
  "thinking_loop session_id turn_num timestamp_str [] acc = Inr acc"
| "thinking_loop session_id turn_num timestamp_str (JObj d # msgs) acc =
     (if has_key d ''message'' then
        (case dget d ''message'' of
           JObj m \<Rightarrow>
             (case dget_default m ''content'' (JArr []) of
                JArr items \<Rightarrow>
                  thinking_loop session_id turn_num timestamp_str msgs
                    (thinking_items session_id turn_num (dget_default d ''timestamp'' timestamp_str)
                       items acc)
              | _ \<Rightarrow> thinking_loop session_id turn_num timestamp_str msgs acc)
         | _ \<Rightarrow> Inl AttributeError)
      else thinking_loop session_id turn_num timestamp_str msgs acc)"
| "thinking_loop session_id turn_num timestamp_str (_ # msgs) acc =
     thinking_loop session_id turn_num timestamp_str msgs acc"

subsection \<open>Tool calls and their results\<close>

text \<open>
  \<^verbatim>\<open>tool_call_map\<close> is a dict keyed by the tool-use id. A list or a dict is
  unhashable: using it as a key, or testing it with \<^verbatim>\<open>in\<close>, raises TypeError.
  \<^verbatim>\<open>True\<close> and \<^verbatim>\<open>1\<close> are the same key, as are \<^verbatim>\<open>False\<close> and \<^verbatim>\<open>0\<close>.
\<close>

type_synonym tool_map = "(json \<times> dict) list"

fun hash_key :: "json \<Rightarrow> py_error + json" where
  "hash_key (JArr xs) = Inl TypeError"
| "hash_key (JObj d) = Inl TypeError"
| "hash_key (JBool b) = Inr (JInt (if b then 1 else 0))"
| "hash_key v = Inr v"

definition msg_timestamp :: "json \<Rightarrow> json" where
  "msg_timestamp msg = dget (record_of msg) ''timestamp''"

definition tool_entry :: "json \<Rightarrow> json \<Rightarrow> dict" where
  "tool_entry ts tool_call =
     [(''name'', dget_default (record_of tool_call) ''name'' (JStr ''unknown'')),
      (''input'', dget_default (record_of tool_call) ''input'' (JObj [])),
      (''id'', dget_default (record_of tool_call) ''id'' (JStr [])),
      (''timestamp'', ts)]"

fun add_tool_calls :: "json \<Rightarrow> json list \<Rightarrow> tool_map \<Rightarrow> py_error + tool_map" where
  "add_tool_calls ts [] tm = Inr tm"
| "add_tool_calls ts (tool_call # tool_calls) tm =
     bind_r (hash_key (dget_default (record_of tool_call) ''id'' (JStr []))) (\<lambda>key.
       add_tool_calls ts tool_calls (AList.update key (tool_entry ts tool_call) tm))"

fun collect_tool_calls :: "json list \<Rightarrow> tool_map \<Rightarrow> py_error + tool_map" where
  "collect_tool_calls [] tm = Inr tm"
| "collect_tool_calls (assistant_msg # msgs) tm =
     bind_r (get_tool_calls assistant_msg) (\<lambda>tool_calls.
     bind_r (add_tool_calls (msg_timestamp assistant_msg) tool_calls tm) (\<lambda>tm'.
       collect_tool_calls msgs tm'))"

text \<open>
  Lines 476 to 486. \<^verbatim>\<open>"durationMs" in tool_use_result\<close> is a key test on a dict,
  a substring test on a str, a membership test on a list, and a TypeError on an
  int or a bool; the subscript that follows is defined on a dict only.
\<close>

fun is_prefix_of :: "string \<Rightarrow> string \<Rightarrow> bool" where
  "is_prefix_of [] s = True"
| "is_prefix_of (c # cs) [] = False"
| "is_prefix_of (c # cs) (d # ds) = (c = d \<and> is_prefix_of cs ds)"

fun is_substring :: "string \<Rightarrow> string \<Rightarrow> bool" where
  "is_substring k [] = (k = [])"
| "is_substring k (c # cs) = (is_prefix_of k (c # cs) \<or> is_substring k cs)"

fun py_in :: "string \<Rightarrow> json \<Rightarrow> py_error + bool" where
  "py_in k (JObj d) = Inr (has_key d k)"
| "py_in k (JStr s) = Inr (is_substring k s)"
| "py_in k (JArr xs) = Inr (JStr k \<in> set xs)"
| "py_in k _ = Inl TypeError"

fun py_getitem :: "json \<Rightarrow> string \<Rightarrow> py_error + json" where
  "py_getitem (JObj d) k = Inr (dget d k)"
| "py_getitem _ k = Inl TypeError"

definition meta_field :: "json \<Rightarrow> string \<Rightarrow> string \<Rightarrow> dict \<Rightarrow> py_error + dict" where
  "meta_field tool_use_result k k' meta =
     bind_r (py_in k tool_use_result) (\<lambda>present.
       if present then bind_r (py_getitem tool_use_result k) (\<lambda>v. Inr (meta @ [(k', v)]))
       else Inr meta)"

definition result_metadata :: "json \<Rightarrow> py_error + dict" where
  "result_metadata tr =
     (case tr of
        JObj d \<Rightarrow>
          (let tool_use_result = dget_default d ''toolUseResult'' (JObj [])
           in if py_truthy tool_use_result then
                bind_r (meta_field tool_use_result ''durationMs'' ''duration_ms'' []) (\<lambda>m1.
                bind_r (meta_field tool_use_result ''numFiles'' ''num_files'' m1) (\<lambda>m2.
                bind_r (meta_field tool_use_result ''filenames'' ''filenames'' m2) (\<lambda>m3.
                  meta_field tool_use_result ''truncated'' ''truncated'' m3)))
              else Inr [])
      | _ \<Rightarrow> Inr [])"

definition attach :: "json \<Rightarrow> dict \<Rightarrow> json \<Rightarrow> dict \<Rightarrow> dict" where
  "attach item meta ts tool_data =
     AList.update ''result_timestamp'' ts
       (AList.update ''result_metadata'' (JObj meta)
          (AList.update ''output'' (dget (record_of item) ''content'') tool_data))"

text \<open>The loop of lines 489 to 495 over the items of one tool result record.\<close>

fun attach_results :: "dict \<Rightarrow> json \<Rightarrow> json list \<Rightarrow> tool_map \<Rightarrow> py_error + tool_map" where
  "attach_results meta ts [] tm = Inr tm"
| "attach_results meta ts (item # items) tm =
     (if is_typed ''tool_result'' item then
        bind_r (hash_key (dget (record_of item) ''tool_use_id'')) (\<lambda>key.
          attach_results meta ts items
            (case map_of tm key of
               Some tool_data \<Rightarrow> AList.update key (attach item meta ts tool_data) tm
             | None \<Rightarrow> tm))
      else attach_results meta ts items tm)"

fun correlate :: "json list \<Rightarrow> tool_map \<Rightarrow> py_error + tool_map" where
  "correlate [] tm = Inr tm"
| "correlate (tr # trs) tm =
     bind_r (get_content tr) (\<lambda>tr_content.
     bind_r (result_metadata tr) (\<lambda>meta.
     bind_r (case tr_content of
               JArr items \<Rightarrow> attach_results meta (msg_timestamp tr) items tm
             | _ \<Rightarrow> Inr tm) (\<lambda>tm'.
       correlate trs tm')))"

subsection \<open>Tool spans\<close>

text \<open>
  \<^verbatim>\<open>duration_ms / 1000.0\<close> converts an int to a float first, which raises
  OverflowError from \<open>2^1024 - 2^970\<close> on; a str, a list or a dict raises
  TypeError.
\<close>

definition float_convertible :: "int \<Rightarrow> bool" where
  "float_convertible n = (\<bar>n\<bar> < 2 ^ 1024 - 2 ^ 970)"

fun div_1000 :: "json \<Rightarrow> py_error + pyfloat" where
  "div_1000 (JInt n) = (if float_convertible n then Inr (Div_1000 n) else Inl OverflowError)"
| "div_1000 (JBool b) = Inr (Div_1000 (if b then 1 else 0))"
| "div_1000 _ = Inl TypeError"

definition tool_span ::
  "env \<Rightarrow> string \<Rightarrow> int \<Rightarrow> json \<Rightarrow> json \<Rightarrow> dict \<Rightarrow> nat \<Rightarrow> py_error + span" where
  "tool_span E session_id turn_num timestamp_str start_time_str tool_data tool_num =
     (let tool_timestamp =
            py_or (dget tool_data ''result_timestamp'') (py_or (dget tool_data ''timestamp'') timestamp_str);
          tool_start_time = py_or (dget tool_data ''timestamp'') start_time_str
      in bind_r (format_tool_input E (dget tool_data ''name'') (dget tool_data ''input'')) (\<lambda>formatted_input.
         bind_r (format_tool_output E (dget tool_data ''name'') (dget tool_data ''output'')) (\<lambda>formatted_output.
           (let span =
                  [(''trace_unique_id'', PJ (JStr (trace_id session_id turn_num))),
                   (''span_unique_id'', PJ (JStr (''turn_'' @ str_of_int turn_num @ ''_tool_'' @ str_of_nat tool_num))),
                   (''span_parent_id'', PJ (JStr (chat_span_id turn_num))),
                   (''span_name'', PJ (JStr (''Tool: '' @ py_str (py_repr E) (dget tool_data ''name'')))),
                   (''span_workflow_name'', PJ (JStr (workflow_name session_id))),
                   (''log_type'', PJ (JStr ''tool'')),
                   (''input'', PJ (JStr formatted_input)),
                   (''output'', PJ (JStr formatted_output)),
                   (''timestamp'', PJ tool_timestamp),
                   (''start_time'', PJ tool_start_time)];
                result_meta = dget tool_data ''result_metadata''
            in if py_truthy result_meta then
                 (let duration_ms = dget (record_of result_meta) ''duration_ms''
                  in if py_truthy duration_ms then
                       bind_r (div_1000 duration_ms) (\<lambda>l.
                         Inr (span @ [(''metadata'', PJ result_meta), (''latency'', PF l)]))
                     else Inr (span @ [(''metadata'', PJ result_meta)]))
               else Inr span))))"

text \<open>The loop of lines 498 to 532 over the call map; \<open>tool_num\<close> counts from 0.\<close>

fun tool_spans ::
  "env \<Rightarrow> string \<Rightarrow> int \<Rightarrow> json \<Rightarrow> json \<Rightarrow> tool_map \<Rightarrow> nat \<Rightarrow> py_error + span list" where
  "tool_spans E session_id turn_num timestamp_str start_time_str [] tool_num = Inr []"
| "tool_spans E session_id turn_num timestamp_str start_time_str ((tool_id, tool_data) # rest) tool_num =
     bind_r (tool_span E session_id turn_num timestamp_str start_time_str tool_data (tool_num + 1)) (\<lambda>sp.
     bind_r (tool_spans E session_id turn_num timestamp_str start_time_str rest (tool_num + 1)) (\<lambda>sps.
       Inr (sp # sps)))"

subsection \<open>One turn\<close>

definition create_keywordsai_spans ::
  "env \<Rightarrow> clock_reads \<Rightarrow> string \<Rightarrow> int \<Rightarrow> json \<Rightarrow> json list \<Rightarrow> json list \<Rightarrow> py_error + span list" where
  "create_keywordsai_spans E clk session_id turn_num user_msg assistant_msgs tool_results =
     bind_r (get_text_content user_msg) (\<lambda>user_text.
     bind_r (user_timestamp_of user_msg) (\<lambda>user_timestamp.
     bind_r (if assistant_msgs = [] then Inr [] else get_text_content (last assistant_msgs)) (\<lambda>final_output.
     bind_r (first_assistant_info E assistant_msgs) (\<lambda>info.
       (let start_time_str =
              py_or user_timestamp (py_or (info_timestamp info) (JStr (now_start clk)));
            timestamp_str = py_or (info_timestamp info) (JStr (now_stamp clk))
        in bind_r (root_latency (parse_if_truthy E user_timestamp) (info_time info)) (\<lambda>latency.
           bind_r (usage_fields (info_usage info)) (\<lambda>usage_obj.
           bind_r (thinking_loop session_id turn_num timestamp_str assistant_msgs []) (\<lambda>thinking_spans.
           bind_r (collect_tool_calls assistant_msgs []) (\<lambda>tool_call_map.
           bind_r (correlate tool_results tool_call_map) (\<lambda>tool_call_map'.
           bind_r (tool_spans E session_id turn_num timestamp_str start_time_str tool_call_map' 0) (\<lambda>tool_sps.
             Inr (chat_span E session_id turn_num user_text final_output info timestamp_str
                    start_time_str usage_obj latency
                  # thinking_spans @ tool_sps))))))))))))"

section \<open>Processing a transcript\<close>

subsection \<open>Lines\<close>

text \<open>
  \<^verbatim>\<open>text.strip().split("\n")\<close>. The characters \<^verbatim>\<open>str.strip\<close> removes are
  those of \<^verbatim>\<open>str.isspace\<close> below U+0100. A split never returns the empty list.
\<close>

definition py_isspace :: "char \<Rightarrow> bool" where
  "py_isspace c =
     (c \<in> set [CHR 0x09, CHR 0x0A, CHR 0x0B, CHR 0x0C, CHR 0x0D, CHR 0x1C, CHR 0x1D,
               CHR 0x1E, CHR 0x1F, CHR 0x20, CHR 0x85, CHR 0xA0])"

definition py_strip :: "string \<Rightarrow> string" where
  "py_strip s = rev (dropWhile py_isspace (rev (dropWhile py_isspace s)))"

fun split_nl :: "string \<Rightarrow> string list" where
  "split_nl [] = [[]]"
| "split_nl (c # cs) =
     (if c = CHR 0x0A then [] # split_nl cs
      else (case split_nl cs of l # ls \<Rightarrow> (c # l) # ls | [] \<Rightarrow> [[c]]))"

text \<open>\<^verbatim>\<open>lines[i]\<close>: a negative index counts from the end; out of range raises IndexError.\<close>

definition py_index :: "'a list \<Rightarrow> int \<Rightarrow> py_error + 'a" where
  "py_index xs i =
     (let n = int (length xs)
      in if 0 \<le> i \<and> i < n then Inr (xs ! nat i)
         else if - n \<le> i \<and> i < 0 then Inr (xs ! nat (n + i))
         else Inl IndexError)"

text \<open>
  Lines 559 to 566: every line from the cursor on that is not blank and that
  \<^verbatim>\<open>json.loads\<close> accepts.
\<close>

fun parse_lines :: "env \<Rightarrow> string list \<Rightarrow> int list \<Rightarrow> py_error + json list" where
  "parse_lines E lines [] = Inr []"
| "parse_lines E lines (i # is) =
     bind_r (py_index lines i) (\<lambda>line.
     bind_r (parse_lines E lines is) (\<lambda>rest.
       if py_strip line \<noteq> [] then
         (case json_loads E line of Some msg \<Rightarrow> Inr (msg # rest) | None \<Rightarrow> Inr rest)
       else Inr rest))"

subsection \<open>Equality of message identifiers\<close>

text \<open>
  \<^verbatim>\<open>==\<close> on JSON values: a bool equals the int of its value, lists are equal
  item by item, dicts are equal when they have the same keys with equal values,
  whatever the order.
\<close>

fun py_eq :: "json \<Rightarrow> json \<Rightarrow> bool" where
  "py_eq JNull JNull = True"
| "py_eq (JBool a) (JBool b) = (a = b)"
| "py_eq (JBool a) (JInt b) = ((if a then 1 else 0) = b)"
| "py_eq (JInt a) (JBool b) = (a = (if b then 1 else 0))"
| "py_eq (JInt a) (JInt b) = (a = b)"
| "py_eq (JStr a) (JStr b) = (a = b)"
| "py_eq (JArr xs) (JArr ys) = list_all2 py_eq xs ys"
| "py_eq (JObj d) (JObj e) =
     (set (map fst d) = set (map fst e) \<and>
      list_all (\<lambda>(k, v). case map_of e k of Some w \<Rightarrow> py_eq v w | None \<Rightarrow> False) d)"
| "py_eq _ _ = False"

subsection \<open>The turn assembler\<close>

record loop_state =
  turns_processed :: int
  current_user :: json
  current_assistants :: "json list"
  current_assistant_parts :: "json list"
  current_msg_id :: json
  current_tool_results :: "json list"
  sent :: "(int \<times> span list) list"
  send_errors :: "int list"

definition initial_state :: loop_state where
  "initial_state =
     \<lparr>turns_processed = 0, current_user = JNull, current_assistants = [],
      current_assistant_parts = [], current_msg_id = JNull, current_tool_results = [],
      sent = [], send_errors = []\<rparr>"

text \<open>
  Lines 597 to 614 and, word for word, 649 to 666: compile the open turn when it
  has a user message and at least one assistant message, and POST the spans.
  \<open>net turn_num spans\<close> tells whether the POST succeeds; a failure is caught and
  logged (\<open>send_errors\<close>), a success is not recorded. \<open>sent\<close> lists every
  batch handed to the POST.
\<close>

definition compile_turn ::
  "env \<Rightarrow> (int \<Rightarrow> clock_reads) \<Rightarrow> (int \<Rightarrow> span list \<Rightarrow> bool) \<Rightarrow> string \<Rightarrow> int \<Rightarrow>
   loop_state \<Rightarrow> py_error + loop_state" where
  "compile_turn E clock net session_id turn_count st =
     (if py_truthy (current_user st) \<and> current_assistants st \<noteq> [] then
        (let turn_num = turn_count + (turns_processed st + 1)
         in bind_r (create_keywordsai_spans E (clock turn_num) session_id turn_num
                      (current_user st) (current_assistants st) (current_tool_results st)) (\<lambda>spans.
              Inr (st\<lparr>turns_processed := turns_processed st + 1,
                      sent := sent st @ [(turn_num, spans)],
                      send_errors := (if net turn_num spans then send_errors st
                                      else send_errors st @ [turn_num])\<rparr>)))
      else Inr st)"

text \<open>Lines 591 to 593, 636 to 638 and 645 to 647.\<close>

definition finalize_message :: "env \<Rightarrow> loop_state \<Rightarrow> py_error + loop_state" where
  "finalize_message E st =
     (if py_truthy (current_msg_id st) \<and> current_assistant_parts st \<noteq> [] then
        bind_r (merge_assistant_parts (py_repr E) (current_assistant_parts st)) (\<lambda>merged.
          Inr (st\<lparr>current_assistants := current_assistants st @ [merged]\<rparr>))
      else Inr st)"

text \<open>
  Line 582: \<^verbatim>\<open>msg.get("type") or msg.get("message", {}).get("role")\<close>. Both
  \<^verbatim>\<open>get\<close>s need a dict.
\<close>

definition get_role :: "json \<Rightarrow> py_error + json" where
  "get_role msg =
     (case msg of
        JObj d \<Rightarrow>
          if py_truthy (dget d ''type'') then Inr (dget d ''type'')
          else (case dget_default d ''message'' (JObj []) of
                  JObj m \<Rightarrow> Inr (dget m ''role'')
                | _ \<Rightarrow> Inl AttributeError)
      | _ \<Rightarrow> Inl AttributeError)"

definition msg_id_of :: "json \<Rightarrow> py_error + json" where
  "msg_id_of msg =
     (case msg of
        JObj d \<Rightarrow>
          if has_key d ''message'' then
            (case dget d ''message'' of JObj m \<Rightarrow> Inr (dget m ''id'') | _ \<Rightarrow> Inl AttributeError)
          else Inr JNull
      | _ \<Rightarrow> Inr JNull)"

definition step ::
  "env \<Rightarrow> (int \<Rightarrow> clock_reads) \<Rightarrow> (int \<Rightarrow> span list \<Rightarrow> bool) \<Rightarrow> string \<Rightarrow> int \<Rightarrow>
   loop_state \<Rightarrow> json \<Rightarrow> py_error + loop_state" where
  "step E clock net session_id turn_count st msg =
     bind_r (get_role msg) (\<lambda>role.
       if role = JStr ''user'' then
         bind_r (is_tool_result msg) (\<lambda>tr.
           if tr then Inr (st\<lparr>current_tool_results := current_tool_results st @ [msg]\<rparr>)
           else
             bind_r (finalize_message E st) (\<lambda>st1.
             bind_r (compile_turn E clock net session_id turn_count st1) (\<lambda>st2.
               Inr (st2\<lparr>current_user := msg, current_assistants := [],
                        current_assistant_parts := [], current_msg_id := JNull,
                        current_tool_results := []\<rparr>))))
       else if role = JStr ''assistant'' then
         bind_r (msg_id_of msg) (\<lambda>msg_id.
           if \<not> py_truthy msg_id then
             Inr (st\<lparr>current_assistant_parts := current_assistant_parts st @ [msg]\<rparr>)
           else if py_eq msg_id (current_msg_id st) then
             Inr (st\<lparr>current_assistant_parts := current_assistant_parts st @ [msg]\<rparr>)
           else
             bind_r (finalize_message E st) (\<lambda>st1.
               Inr (st1\<lparr>current_msg_id := msg_id, current_assistant_parts := [msg]\<rparr>)))
       else Inr st)"

fun run_loop ::
  "env \<Rightarrow> (int \<Rightarrow> clock_reads) \<Rightarrow> (int \<Rightarrow> span list \<Rightarrow> bool) \<Rightarrow> string \<Rightarrow> int \<Rightarrow>
   json list \<Rightarrow> loop_state \<Rightarrow> py_error + loop_state" where
  "run_loop E clock net session_id turn_count [] st = Inr st"
| "run_loop E clock net session_id turn_count (msg # msgs) st =
     bind_r (step E clock net session_id turn_count st msg)
       (run_loop E clock net session_id turn_count msgs)"

subsection \<open>One run\<close>

text \<open>
  The state file maps a session identifier to the three fields \<^verbatim>\<open>save_state\<close>
  writes. A run returns the number of turns it compiled; the model also returns
  the state, whether it was saved, the batches handed to the POST and the turn
  numbers logged as failed. Debug messages are left out, and writing the log
  and the state file is taken to succeed.
\<close>

record session =
  last_line :: int
  turn_count :: int
  updated :: string

record run =
  returned :: int
  state_after :: "string \<Rightarrow> session option"
  saved :: bool
  posts :: "(int \<times> span list) list"
  error_log :: "int list"

definition stored_last_line :: "(string \<Rightarrow> session option) \<Rightarrow> string \<Rightarrow> int" where
  "stored_last_line state session_id =
     (case state session_id of None \<Rightarrow> 0 | Some s \<Rightarrow> last_line s)"

definition stored_turn_count :: "(string \<Rightarrow> session option) \<Rightarrow> string \<Rightarrow> int" where
  "stored_turn_count state session_id =
     (case state session_id of None \<Rightarrow> 0 | Some s \<Rightarrow> turn_count s)"

definition transcript_lines :: "string \<Rightarrow> string list" where
  "transcript_lines text = split_nl (py_strip text)"

definition total_lines :: "string \<Rightarrow> int" where
  "total_lines text = int (length (transcript_lines text))"

definition no_op :: "(string \<Rightarrow> session option) \<Rightarrow> run" where
  "no_op state = \<lparr>returned = 0, state_after = state, saved = False, posts = [], error_log = []\<rparr>"

definition process_transcript ::
  "env \<Rightarrow> (int \<Rightarrow> clock_reads) \<Rightarrow> (int \<Rightarrow> span list \<Rightarrow> bool) \<Rightarrow> string \<Rightarrow>
   string \<Rightarrow> string \<Rightarrow> (string \<Rightarrow> session option) \<Rightarrow> py_error + run" where
  "process_transcript E clock net now session_id text state =
     (let cursor = stored_last_line state session_id;
          count = stored_turn_count state session_id
      in if cursor \<ge> total_lines text then Inr (no_op state)
         else
           bind_r (parse_lines E (transcript_lines text) [cursor..total_lines text - 1]) (\<lambda>new_messages.
             if new_messages = [] then Inr (no_op state)
             else
               bind_r (run_loop E clock net session_id count new_messages initial_state) (\<lambda>st.
               bind_r (finalize_message E st) (\<lambda>st1.
               bind_r (compile_turn E clock net session_id count st1) (\<lambda>st2.
                 Inr \<lparr>returned = turns_processed st2,
                      state_after = state(session_id \<mapsto>
                        \<lparr>last_line = total_lines text,
                         turn_count = count + turns_processed st2,
                         updated = now\<rparr>),
                      saved = True,
                      posts = sent st2,
                      error_log = send_errors st2\<rparr>)))))"

section \<open>A small transcript\<close>

text \<open>
  Records and a library instance to run the definitions on: \<^verbatim>\<open>json.loads\<close> is a
  table from six lines to three turns, the other library functions are constant.
\<close>

definition user_rec :: "string \<Rightarrow> json" where
  "user_rec t =
     JObj [(''type'', JStr ''user''),
           (''message'', JObj [(''role'', JStr ''user''), (''content'', JStr t)])]"

definition asst_rec :: "string \<Rightarrow> json list \<Rightarrow> json" where
  "asst_rec i bs =
     JObj [(''type'', JStr ''assistant''),
           (''message'', JObj [(''id'', JStr i), (''content'', JArr bs)])]"

definition text_block :: "string \<Rightarrow> json" where
  "text_block t = JObj [(''type'', JStr ''text''), (''text'', JStr t)]"

definition demo_records :: "(string \<times> json) list" where
  "demo_records =
     [(''u1'', user_rec ''one''), (''a1'', asst_rec ''m1'' [text_block ''1'']),
      (''u2'', user_rec ''two''), (''a2'', asst_rec ''m2'' [text_block ''2'']),
      (''u3'', user_rec ''three''), (''a3'', asst_rec ''m3'' [text_block ''3''])]"

definition demo_env :: env where
  "demo_env =
     \<lparr>json_loads = map_of demo_records, json_dumps = (\<lambda>v. ''J''),
      json_dumps_indent = (\<lambda>v. ''J''), py_repr = (\<lambda>v. ''R''),
      fromisoformat = (\<lambda>s. None)\<rparr>"

definition demo_clock :: "int \<Rightarrow> clock_reads" where
  "demo_clock n = \<lparr>now_start = ''t'', now_stamp = ''t''\<rparr>"

definition demo_text :: string where
  "demo_text = ''u1'' @ NL @ ''a1'' @ NL @ ''u2'' @ NL @ ''a2'' @ NL @ ''u3'' @ NL @ ''a3'' @ NL"

definition demo_state :: "int \<Rightarrow> int \<Rightarrow> string \<Rightarrow> session option" where
  "demo_state l k = Map.empty(''S'' \<mapsto> \<lparr>last_line = l, turn_count = k, updated = ''x''\<rparr>)"

section \<open>Properties\<close>

subsection \<open>What a merge keeps\<close>

text \<open>
  A fragment of the assistant message \<open>mid\<close>: a record whose \<^verbatim>\<open>message\<close> is a
  dict with that \<^verbatim>\<open>id\<close> and a list of content blocks.
\<close>

definition is_fragment :: "json \<Rightarrow> json \<Rightarrow> bool" where
  "is_fragment mid p =
     (case p of
        JObj d \<Rightarrow>
          (case map_of d ''message'' of
             Some (JObj m) \<Rightarrow>
               map_of m ''id'' = Some mid \<and>
               (case map_of m ''content'' of Some (JArr bs) \<Rightarrow> True | _ \<Rightarrow> False)
           | _ \<Rightarrow> False)
      | _ \<Rightarrow> False)"

definition blocks_of :: "json \<Rightarrow> json list" where
  "blocks_of p = (case dget (message_of p) ''content'' of JArr bs \<Rightarrow> bs | _ \<Rightarrow> [])"

definition frag3 :: "string \<Rightarrow> string \<Rightarrow> json list \<Rightarrow> json" where
  "frag3 model ts bs =
     JObj [(''type'', JStr ''assistant''),
           (''message'', JObj [(''id'', JStr ''m1''), (''model'', JStr model),
                               (''usage'', JObj [(''input_tokens'', JInt (int (length ts)))]),
                               (''content'', JArr bs)]),
           (''timestamp'', JStr ts)]"

lemma is_fragment_content:
  "is_fragment mid p \<Longrightarrow> get_content p = Inr (JArr (blocks_of p))"
  by (auto simp: is_fragment_def blocks_of_def message_of_def record_of_def has_key_def dget_def
      split: json.splits option.splits)

lemma is_fragment_message:
  assumes "is_fragment mid p"
  obtains d m where "p = JObj d" and "map_of d ''message'' = Some (JObj m)"
  using assms
  by (cases p; cases "map_of (record_of p) ''message''";
      cases "the (map_of (record_of p) ''message'')")
     (auto simp: is_fragment_def record_of_def)

lemma merged_content_fragments:
  "list_all (is_fragment mid) parts \<Longrightarrow>
   merged_content rp parts = Inr (concat (map blocks_of parts))"
  by (induction parts) (auto simp: bind_r_def is_fragment_content)

text \<open>
  Claim C3. For a non-empty list of assistant fragments that share one message
  identifier, the merged message's content is the concatenation of the fragments'
  content block lists in encounter order, and everything else is the first
  fragment's: every field of \<^verbatim>\<open>message\<close> but \<^verbatim>\<open>content\<close> (model, usage,
  requestId, stop_reason) and every top-level field but \<^verbatim>\<open>message\<close> (timestamp).
\<close>

theorem merge_assistant_parts_concat:
  assumes ne: "parts \<noteq> []" and fr: "list_all (is_fragment mid) parts"
  shows "\<exists>r. merge_assistant_parts rp parts = Inr r \<and>
           get_content r = Inr (JArr (concat (map blocks_of parts))) \<and>
           (\<forall>k. k \<noteq> ''content'' \<longrightarrow>
                map_of (message_of r) k = map_of (message_of (hd parts)) k) \<and>
           (\<forall>k. k \<noteq> ''message'' \<longrightarrow>
                map_of (record_of r) k = map_of (record_of (hd parts)) k)"
proof -
  from ne obtain p ps where parts: "parts = p # ps" by (cases parts) auto
  with fr have "is_fragment mid p" by simp
  then obtain d m where p: "p = JObj d" and dm: "map_of d ''message'' = Some (JObj m)"
    by (rule is_fragment_message)
  show ?thesis
    using merged_content_fragments[OF fr, of rp] p dm
    by (simp add: parts merge_assistant_parts_def bind_r_def has_key_def dget_def
        message_of_def record_of_def update_conv')
qed

theorem merge_assistant_parts_concat_witness:
  "[frag3 ''x'' ''t1'' [JStr ''a''], frag3 ''y'' ''t22'' [JStr ''b'', JStr ''c''], frag3 ''z'' ''t333'' [JStr ''d'']] \<noteq> [] \<and>
   list_all (is_fragment (JStr ''m1''))
     [frag3 ''x'' ''t1'' [JStr ''a''], frag3 ''y'' ''t22'' [JStr ''b'', JStr ''c''], frag3 ''z'' ''t333'' [JStr ''d'']] \<and>
   (\<exists>r. merge_assistant_parts (\<lambda>v. [])
          [frag3 ''x'' ''t1'' [JStr ''a''], frag3 ''y'' ''t22'' [JStr ''b'', JStr ''c''], frag3 ''z'' ''t333'' [JStr ''d'']] = Inr r \<and>
        get_content r = Inr (JArr [JStr ''a'', JStr ''b'', JStr ''c'', JStr ''d'']) \<and>
        map_of (message_of r) ''model'' = Some (JStr ''x'') \<and>
        map_of (message_of r) ''usage'' = Some (JObj [(''input_tokens'', JInt 2)]) \<and>
        map_of (message_of r) ''requestId'' = None \<and>
        map_of (record_of r) ''timestamp'' = Some (JStr ''t1''))"
proof -
  let ?ps = "[frag3 ''x'' ''t1'' [JStr ''a''], frag3 ''y'' ''t22'' [JStr ''b'', JStr ''c''], frag3 ''z'' ''t333'' [JStr ''d'']]"
  have ne: "?ps \<noteq> []" by simp
  have fr: "list_all (is_fragment (JStr ''m1'')) ?ps"
    by (simp add: is_fragment_def frag3_def)
  from merge_assistant_parts_concat[OF ne fr, of "\<lambda>v. []"]
  obtain r where r: "merge_assistant_parts (\<lambda>v. []) ?ps = Inr r"
    and c: "get_content r = Inr (JArr (concat (map blocks_of ?ps)))"
    and m: "\<forall>k. k \<noteq> ''content'' \<longrightarrow> map_of (message_of r) k = map_of (message_of (hd ?ps)) k"
    and t: "\<forall>k. k \<noteq> ''message'' \<longrightarrow> map_of (record_of r) k = map_of (record_of (hd ?ps)) k"
    by blast
  have c': "get_content r = Inr (JArr [JStr ''a'', JStr ''b'', JStr ''c'', JStr ''d''])"
    using c by (simp add: blocks_of_def message_of_def record_of_def dget_def frag3_def)
  have m1: "map_of (message_of r) ''model'' = Some (JStr ''x'')"
    using m by (simp add: message_of_def record_of_def dget_def frag3_def)
  have m2: "map_of (message_of r) ''usage'' = Some (JObj [(''input_tokens'', JInt 2)])"
    using m by (simp add: message_of_def record_of_def dget_def frag3_def)
  have m3: "map_of (message_of r) ''requestId'' = None"
    using m by (simp add: message_of_def record_of_def dget_def frag3_def)
  have t1: "map_of (record_of r) ''timestamp'' = Some (JStr ''t1'')"
    using t by (simp add: message_of_def record_of_def dget_def frag3_def)
  show ?thesis using ne fr r c' m1 m2 m3 t1 by blast
qed


subsection \<open>The shape of a compiled turn\<close>

lemma bind_r_Inr: "bind_r m f = Inr y \<longleftrightarrow> (\<exists>x. m = Inr x \<and> f x = Inr y)"
  by (cases m) (auto simp: bind_r_def)

lemma bind_r_Inr_simp [simp]: "bind_r (Inr x) f = f x"
  by (simp add: bind_r_def)

lemma bind_r_Inl_simp [simp]: "bind_r (Inl e) f = Inl e"
  by (simp add: bind_r_def)

definition child_of :: "string \<Rightarrow> string \<Rightarrow> int \<Rightarrow> span \<Rightarrow> bool" where
  "child_of kind session_id turn_num sp =
     (map_of sp ''log_type'' = Some (PJ (JStr kind)) \<and>
      map_of sp ''span_parent_id'' = Some (PJ (JStr (chat_span_id turn_num))) \<and>
      map_of sp ''trace_unique_id'' = Some (PJ (JStr (trace_id session_id turn_num))))"

lemma thinking_span_child:
  "child_of ''generation'' session_id turn_num (thinking_span session_id turn_num k ts txt)"
  by (simp add: child_of_def thinking_span_def)

lemma thinking_items_children:
  "list_all (child_of ''generation'' session_id turn_num) acc \<Longrightarrow>
   list_all (child_of ''generation'' session_id turn_num)
     (thinking_items session_id turn_num ts items acc)"
  by (induction items arbitrary: acc) (simp_all add: thinking_span_child)

lemma thinking_loop_children:
  "thinking_loop session_id turn_num tstr msgs acc = Inr ths \<Longrightarrow>
   list_all (child_of ''generation'' session_id turn_num) acc \<Longrightarrow>
   list_all (child_of ''generation'' session_id turn_num) ths"
proof (induction session_id turn_num tstr msgs acc rule: thinking_loop.induct)
  case (2 session_id turn_num timestamp_str d msgs acc)
  then show ?case
    by (auto simp: thinking_items_children split: if_splits json.splits)
qed simp_all

lemma tool_span_child:
  "tool_span E session_id turn_num tstr sstr tool_data k = Inr sp \<Longrightarrow>
   child_of ''tool'' session_id turn_num sp"
  by (auto simp: tool_span_def Let_def bind_r_Inr child_of_def split: if_splits)

lemma tool_spans_children:
  "tool_spans E session_id turn_num tstr sstr tm k = Inr sps \<Longrightarrow>
   list_all (child_of ''tool'' session_id turn_num) sps"
proof (induction tm arbitrary: k sps)
  case (Cons a tm)
  obtain key data where a: "a = (key, data)" by (cases a)
  from Cons.prems show ?case
    by (auto simp: a bind_r_Inr dest: tool_span_child Cons.IH)
qed simp

lemma chat_span_root:
  "map_of (chat_span E session_id turn_num ut fo info tstr sstr uo lat) ''log_type'' = Some (PJ (JStr ''agent''))"
  "map_of (chat_span E session_id turn_num ut fo info tstr sstr uo lat) ''span_parent_id'' = Some (PJ JNull)"
  "map_of (chat_span E session_id turn_num ut fo info tstr sstr uo lat) ''span_unique_id'' = Some (PJ (JStr (chat_span_id turn_num)))"
  "map_of (chat_span E session_id turn_num ut fo info tstr sstr uo lat) ''trace_unique_id'' = Some (PJ (JStr (trace_id session_id turn_num)))"
  by (simp_all add: chat_span_def Let_def map_add_def)

lemma create_keywordsai_spans_Inr:
  assumes "create_keywordsai_spans E clk session_id turn_num user_msg assistant_msgs tool_results = Inr spans"
  shows "\<exists>user_text user_timestamp final_output info latency usage_obj thinking tm tm' tools.
      get_text_content user_msg = Inr user_text \<and>
      user_timestamp_of user_msg = Inr user_timestamp \<and>
      (if assistant_msgs = [] then Inr [] else get_text_content (last assistant_msgs)) = Inr final_output \<and>
      first_assistant_info E assistant_msgs = Inr info \<and>
      root_latency (parse_if_truthy E user_timestamp) (info_time info) = Inr latency \<and>
      usage_fields (info_usage info) = Inr usage_obj \<and>
      thinking_loop session_id turn_num (py_or (info_timestamp info) (JStr (now_stamp clk)))
           assistant_msgs [] = Inr thinking \<and>
      collect_tool_calls assistant_msgs [] = Inr tm \<and>
      correlate tool_results tm = Inr tm' \<and>
      tool_spans E session_id turn_num (py_or (info_timestamp info) (JStr (now_stamp clk)))
           (py_or user_timestamp (py_or (info_timestamp info) (JStr (now_start clk)))) tm' 0 = Inr tools \<and>
      spans = chat_span E session_id turn_num user_text final_output info
                   (py_or (info_timestamp info) (JStr (now_stamp clk)))
                   (py_or user_timestamp (py_or (info_timestamp info) (JStr (now_start clk))))
                   usage_obj latency # thinking @ tools"
  using assms
  unfolding create_keywordsai_spans_def Let_def bind_r_Inr sum.inject
  by (elim exE conjE) (intro exI conjI, (assumption | erule sym)+)

lemma create_keywordsai_spans_parts:
  assumes "create_keywordsai_spans E clk session_id turn_num user_msg assistant_msgs tool_results = Inr spans"
  shows "\<exists>root thinking tools.
           spans = root # thinking @ tools \<and>
           map_of root ''log_type'' = Some (PJ (JStr ''agent'')) \<and>
           map_of root ''span_parent_id'' = Some (PJ JNull) \<and>
           map_of root ''span_unique_id'' = Some (PJ (JStr (chat_span_id turn_num))) \<and>
           map_of root ''trace_unique_id'' = Some (PJ (JStr (trace_id session_id turn_num))) \<and>
           list_all (child_of ''generation'' session_id turn_num) thinking \<and>
           list_all (child_of ''tool'' session_id turn_num) tools"
proof -
  from create_keywordsai_spans_Inr[OF assms]
  obtain user_text user_timestamp final_output info latency usage_obj thinking tm' tools
    where th: "thinking_loop session_id turn_num (py_or (info_timestamp info) (JStr (now_stamp clk)))
           assistant_msgs [] = Inr thinking"
    and tl: "tool_spans E session_id turn_num (py_or (info_timestamp info) (JStr (now_stamp clk)))
           (py_or user_timestamp (py_or (info_timestamp info) (JStr (now_start clk)))) tm' 0 = Inr tools"
    and sp: "spans = chat_span E session_id turn_num user_text final_output info
                   (py_or (info_timestamp info) (JStr (now_stamp clk)))
                   (py_or user_timestamp (py_or (info_timestamp info) (JStr (now_start clk))))
                   usage_obj latency # thinking @ tools"
    by blast
  have "list_all (child_of ''generation'' session_id turn_num) thinking"
    using thinking_loop_children[OF th] by simp
  moreover have "list_all (child_of ''tool'' session_id turn_num) tools"
    using tool_spans_children[OF tl] .
  ultimately show ?thesis
    unfolding sp
    by (intro exI[of _ "chat_span E session_id turn_num user_text final_output info
                   (py_or (info_timestamp info) (JStr (now_stamp clk)))
                   (py_or user_timestamp (py_or (info_timestamp info) (JStr (now_start clk))))
                   usage_obj latency"] exI[of _ thinking] exI[of _ tools] conjI)
       (simp_all only: chat_span_root)
qed


subsection \<open>Turn numbers\<close>

definition traced :: "string \<Rightarrow> int \<times> span list \<Rightarrow> bool" where
  "traced session_id batch =
     (snd batch \<noteq> [] \<and>
      list_all (\<lambda>sp. map_of sp ''trace_unique_id'' =
                       Some (PJ (JStr (session_id @ ''_turn_'' @ str_of_int (fst batch)))))
        (snd batch))"

definition numbered :: "int \<Rightarrow> string \<Rightarrow> loop_state \<Rightarrow> bool" where
  "numbered k session_id st =
     (0 \<le> turns_processed st \<and>
      map fst (sent st) = map (\<lambda>i. k + i) [1..turns_processed st] \<and>
      list_all (traced session_id) (sent st))"

lemma create_keywordsai_spans_traced:
  assumes "create_keywordsai_spans E clk session_id turn_num user_msg assistant_msgs tool_results = Inr spans"
  shows "traced session_id (turn_num, spans)"
proof -
  from create_keywordsai_spans_parts[OF assms] obtain root thinking tools where
    "spans = root # thinking @ tools"
    "map_of root ''trace_unique_id'' = Some (PJ (JStr (trace_id session_id turn_num)))"
    "list_all (child_of ''generation'' session_id turn_num) thinking"
    "list_all (child_of ''tool'' session_id turn_num) tools"
    by blast
  then show ?thesis
    by (auto simp: traced_def list_all_iff child_of_def trace_id_def)
qed

lemma numbered_initial: "numbered k session_id initial_state"
  by (simp add: numbered_def initial_state_def)

lemma compile_turn_numbered:
  assumes "compile_turn E clock net session_id k st = Inr st'" and "numbered k session_id st"
  shows "numbered k session_id st'"
proof (cases "py_truthy (current_user st) \<and> current_assistants st \<noteq> []")
  case True
  with assms(1) obtain spans where
    sp: "create_keywordsai_spans E (clock (k + (turns_processed st + 1))) session_id
           (k + (turns_processed st + 1)) (current_user st) (current_assistants st)
           (current_tool_results st) = Inr spans"
    and st': "st' = st\<lparr>turns_processed := turns_processed st + 1,
                      sent := sent st @ [(k + (turns_processed st + 1), spans)],
                      send_errors := (if net (k + (turns_processed st + 1)) spans then send_errors st
                                      else send_errors st @ [k + (turns_processed st + 1)])\<rparr>"
    by (auto simp: compile_turn_def Let_def bind_r_Inr)
  from assms(2) have n0: "0 \<le> turns_processed st" by (simp add: numbered_def)
  then have up: "[1..turns_processed st + 1] = [1..turns_processed st] @ [turns_processed st + 1]"
    by (simp add: upto_rec2)
  show ?thesis
    using assms(2) create_keywordsai_spans_traced[OF sp] n0
    by (simp add: numbered_def st' up)
next
  case False
  with assms show ?thesis by (auto simp: compile_turn_def)
qed

lemma finalize_message_fields:
  assumes "finalize_message E st = Inr st'"
  shows "turns_processed st' = turns_processed st" "sent st' = sent st"
    "send_errors st' = send_errors st" "current_user st' = current_user st"
    "current_tool_results st' = current_tool_results st"
    "current_msg_id st' = current_msg_id st"
    "current_assistant_parts st' = current_assistant_parts st"
  using assms by (auto simp: finalize_message_def bind_r_Inr split: if_splits)

lemma finalize_message_numbered:
  "finalize_message E st = Inr st' \<Longrightarrow> numbered k session_id st \<Longrightarrow> numbered k session_id st'"
  by (simp add: numbered_def finalize_message_fields)

lemma step_Inr:
  assumes "step E clock net session_id k st msg = Inr st'"
  obtains (tool_result) "st' = st\<lparr>current_tool_results := current_tool_results st @ [msg]\<rparr>"
  | (user) st1 st2 where "finalize_message E st = Inr st1"
      "compile_turn E clock net session_id k st1 = Inr st2"
      "st' = st2\<lparr>current_user := msg, current_assistants := [],
                 current_assistant_parts := [], current_msg_id := JNull,
                 current_tool_results := []\<rparr>"
  | (continuation) "st' = st\<lparr>current_assistant_parts := current_assistant_parts st @ [msg]\<rparr>"
  | (new_message) st1 msg_id where "finalize_message E st = Inr st1"
      "st' = st1\<lparr>current_msg_id := msg_id, current_assistant_parts := [msg]\<rparr>"
  | (ignored) "st' = st"
proof -
  from assms obtain role where role: "get_role msg = Inr role"
    and body: "(if role = JStr ''user'' then
         bind_r (is_tool_result msg) (\<lambda>tr.
           if tr then Inr (st\<lparr>current_tool_results := current_tool_results st @ [msg]\<rparr>)
           else
             bind_r (finalize_message E st) (\<lambda>st1.
             bind_r (compile_turn E clock net session_id k st1) (\<lambda>st2.
               Inr (st2\<lparr>current_user := msg, current_assistants := [],
                        current_assistant_parts := [], current_msg_id := JNull,
                        current_tool_results := []\<rparr>))))
       else if role = JStr ''assistant'' then
         bind_r (msg_id_of msg) (\<lambda>msg_id.
           if \<not> py_truthy msg_id then
             Inr (st\<lparr>current_assistant_parts := current_assistant_parts st @ [msg]\<rparr>)
           else if py_eq msg_id (current_msg_id st) then
             Inr (st\<lparr>current_assistant_parts := current_assistant_parts st @ [msg]\<rparr>)
           else
             bind_r (finalize_message E st) (\<lambda>st1.
               Inr (st1\<lparr>current_msg_id := msg_id, current_assistant_parts := [msg]\<rparr>)))
       else Inr st) = Inr st'"
    unfolding step_def bind_r_Inr by blast
  consider (u) "role = JStr ''user''" | (a) "role = JStr ''assistant''"
    | (o) "role \<noteq> JStr ''user''" "role \<noteq> JStr ''assistant''" by blast
  then show ?thesis
  proof cases
    case u
    with body obtain tr where tr: "is_tool_result msg = Inr tr"
      and b2: "(if tr then Inr (st\<lparr>current_tool_results := current_tool_results st @ [msg]\<rparr>)
           else
             bind_r (finalize_message E st) (\<lambda>st1.
             bind_r (compile_turn E clock net session_id k st1) (\<lambda>st2.
               Inr (st2\<lparr>current_user := msg, current_assistants := [],
                        current_assistant_parts := [], current_msg_id := JNull,
                        current_tool_results := []\<rparr>)))) = Inr st'"
      by (auto simp: bind_r_Inr)
    show ?thesis
    proof (cases tr)
      case True
      with b2 show ?thesis by (intro tool_result) simp
    next
      case False
      with b2 obtain st1 st2 where "finalize_message E st = Inr st1"
        "compile_turn E clock net session_id k st1 = Inr st2"
        "st' = st2\<lparr>current_user := msg, current_assistants := [],
                        current_assistant_parts := [], current_msg_id := JNull,
                        current_tool_results := []\<rparr>"
        by (auto simp: bind_r_Inr)
      then show ?thesis by (rule user)
    qed
  next
    case a
    with body obtain msg_id where
      b2: "(if \<not> py_truthy msg_id then
             Inr (st\<lparr>current_assistant_parts := current_assistant_parts st @ [msg]\<rparr>)
           else if py_eq msg_id (current_msg_id st) then
             Inr (st\<lparr>current_assistant_parts := current_assistant_parts st @ [msg]\<rparr>)
           else
             bind_r (finalize_message E st) (\<lambda>st1.
               Inr (st1\<lparr>current_msg_id := msg_id, current_assistant_parts := [msg]\<rparr>))) = Inr st'"
      by (auto simp: bind_r_Inr)
    show ?thesis
    proof (cases "\<not> py_truthy msg_id \<or> py_eq msg_id (current_msg_id st)")
      case True
      with b2 show ?thesis by (intro continuation) (auto split: if_splits)
    next
      case False
      with b2 obtain st1 where "finalize_message E st = Inr st1"
        "st' = st1\<lparr>current_msg_id := msg_id, current_assistant_parts := [msg]\<rparr>"
        by (auto simp: bind_r_Inr)
      then show ?thesis by (rule new_message)
    qed
  next
    case o
    with body show ?thesis by (intro ignored) simp
  qed
qed

lemma step_numbered:
  assumes "step E clock net session_id k st msg = Inr st'" and "numbered k session_id st"
  shows "numbered k session_id st'"
  using assms(1)
proof (cases rule: step_Inr)
  case (user st1 st2)
  from compile_turn_numbered[OF user(2) finalize_message_numbered[OF user(1) assms(2)]]
  show ?thesis by (simp add: user(3) numbered_def)
next
  case (new_message st1 msg_id)
  from finalize_message_numbered[OF new_message(1) assms(2)]
  show ?thesis by (simp add: new_message(2) numbered_def)
qed (use assms(2) in \<open>simp_all add: numbered_def\<close>)

lemma run_loop_numbered:
  "run_loop E clock net session_id k msgs st = Inr st' \<Longrightarrow> numbered k session_id st \<Longrightarrow>
   numbered k session_id st'"
  by (induction msgs arbitrary: st) (auto simp: bind_r_Inr dest: step_numbered)

subsection \<open>Runs\<close>

text \<open>
  Claim C1. When the stored cursor \<^verbatim>\<open>last_line\<close> is at least the number of lines
  of the log, \<^verbatim>\<open>process_transcript\<close> returns 0: it builds no turn, hands nothing
  to the POST, and leaves the state as it was.
\<close>

theorem process_transcript_cursor_at_end:
  assumes "total_lines text \<le> stored_last_line state session_id"
  shows "process_transcript E clock net now session_id text state =
           Inr \<lparr>returned = 0, state_after = state, saved = False, posts = [], error_log = []\<rparr>"
  using assms by (simp add: process_transcript_def Let_def no_op_def)

lemma total_lines_demo_text: "total_lines demo_text = 6"
  by code_simp

theorem process_transcript_cursor_at_end_witness:
  "total_lines demo_text \<le> stored_last_line (demo_state 6 3) ''S'' \<and>
   process_transcript demo_env demo_clock (\<lambda>n sp. True) ''now'' ''S'' demo_text (demo_state 6 3) =
     Inr \<lparr>returned = 0, state_after = demo_state 6 3, saved = False, posts = [], error_log = []\<rparr>"
proof -
  have h: "total_lines demo_text \<le> stored_last_line (demo_state 6 3) ''S''"
    by (simp add: total_lines_demo_text stored_last_line_def demo_state_def)
  from h process_transcript_cursor_at_end[OF h] show ?thesis by blast
qed

lemma process_transcript_Inr:
  assumes "process_transcript E clock net now session_id text state = Inr r"
  shows "r = no_op state \<or>
    (\<exists>new_messages st st1 st2.
       stored_last_line state session_id < total_lines text \<and>
       parse_lines E (transcript_lines text)
         [stored_last_line state session_id..total_lines text - 1] = Inr new_messages \<and>
       new_messages \<noteq> [] \<and>
       run_loop E clock net session_id (stored_turn_count state session_id) new_messages
         initial_state = Inr st \<and>
       finalize_message E st = Inr st1 \<and>
       compile_turn E clock net session_id (stored_turn_count state session_id) st1 = Inr st2 \<and>
       r = \<lparr>returned = turns_processed st2,
            state_after = state(session_id \<mapsto>
              \<lparr>last_line = total_lines text,
               turn_count = stored_turn_count state session_id + turns_processed st2,
               updated = now\<rparr>),
            saved = True, posts = sent st2, error_log = send_errors st2\<rparr>)"
proof (cases "total_lines text \<le> stored_last_line state session_id")
  case True
  with assms show ?thesis by (simp add: process_transcript_def Let_def)
next
  case False
  with assms obtain new_messages where
    p: "parse_lines E (transcript_lines text)
         [stored_last_line state session_id..total_lines text - 1] = Inr new_messages"
    and rest: "(if new_messages = [] then Inr (no_op state)
             else
               bind_r (run_loop E clock net session_id (stored_turn_count state session_id) new_messages initial_state) (\<lambda>st.
               bind_r (finalize_message E st) (\<lambda>st1.
               bind_r (compile_turn E clock net session_id (stored_turn_count state session_id) st1) (\<lambda>st2.
                 Inr \<lparr>returned = turns_processed st2,
                      state_after = state(session_id \<mapsto>
                        \<lparr>last_line = total_lines text,
                         turn_count = stored_turn_count state session_id + turns_processed st2,
                         updated = now\<rparr>),
                      saved = True,
                      posts = sent st2,
                      error_log = send_errors st2\<rparr>)))) = Inr r"
    by (auto simp: process_transcript_def Let_def bind_r_Inr)
  show ?thesis
  proof (cases "new_messages = []")
    case True
    with rest show ?thesis by simp
  next
    case ne: False
    with rest obtain st st1 st2 where
      "run_loop E clock net session_id (stored_turn_count state session_id) new_messages
         initial_state = Inr st"
      "finalize_message E st = Inr st1"
      "compile_turn E clock net session_id (stored_turn_count state session_id) st1 = Inr st2"
      "r = \<lparr>returned = turns_processed st2,
            state_after = state(session_id \<mapsto>
              \<lparr>last_line = total_lines text,
               turn_count = stored_turn_count state session_id + turns_processed st2,
               updated = now\<rparr>),
            saved = True, posts = sent st2, error_log = send_errors st2\<rparr>"
      by (auto simp: bind_r_Inr)
    with p ne False show ?thesis by (intro disjI2 exI conjI) (assumption | simp)+
  qed
qed

definition grown_text :: string where
  "grown_text = demo_text @ ''zz''"

definition outcome :: "run \<Rightarrow> int \<times> bool \<times> session option \<times> nat" where
  "outcome r = (returned r, saved r, state_after r ''S'', length (posts r))"

text \<open>
  A run that completes no turn and finds no record to parse: the stored cursor
  is 6, the log has grown by a seventh line that \<^verbatim>\<open>json.loads\<close> rejects. The run
  returns 0 at line 569, before \<^verbatim>\<open>save_state\<close>: the stored \<^verbatim>\<open>last_line\<close> stays 6
  and is not the number of lines, 7.
\<close>

theorem process_transcript_returns_unsaved:
  "map_sum id outcome
     (process_transcript demo_env demo_clock (\<lambda>n sp. True) ''now'' ''S'' grown_text (demo_state 6 3)) =
     Inr (0, False, Some \<lparr>last_line = 6, turn_count = 3, updated = ''x''\<rparr>, 0) \<and>
   total_lines grown_text = 7"
  by code_simp

text \<open>
  Claim C2, as the code has it. With a stored turn counter \<open>k\<close>, a run that
  returns \<open>n\<close> has handed to the POST the turns \<open>k + 1\<close> to \<open>k + n\<close> in
  this order, every batch non-empty and every span of turn \<open>k + i\<close> carrying
  the trace identifier \<^verbatim>\<open>{session_id}_turn_{k + i}\<close>. A run that compiled a turn
  has saved the state, and a saved state records \<^verbatim>\<open>turn_count = k + n\<close> and
  \<^verbatim>\<open>last_line\<close> = the number of lines. A run that has not saved the state
  returned 0, sent nothing and left the state as it was. The run of the witness
  starts from \<^verbatim>\<open>turn_count = 2\<close> and a cursor of 4 on a log of three turns: it
  emits turn 3 and nothing else.
\<close>

theorem process_transcript_turn_numbers:
  assumes "process_transcript E clock net now session_id text state = Inr r"
  shows "map fst (posts r) = map (\<lambda>i. stored_turn_count state session_id + i) [1..returned r] \<and>
         list_all
           (\<lambda>b. snd b \<noteq> [] \<and>
                list_all (\<lambda>sp. map_of sp ''trace_unique_id'' =
                                 Some (PJ (JStr (session_id @ ''_turn_'' @ str_of_int (fst b)))))
                  (snd b))
           (posts r) \<and>
         (0 < returned r \<longrightarrow> saved r) \<and>
         (saved r \<longrightarrow>
            state_after r session_id =
              Some \<lparr>last_line = total_lines text,
                    turn_count = stored_turn_count state session_id + returned r,
                    updated = now\<rparr>) \<and>
         (\<not> saved r \<longrightarrow> returned r = 0 \<and> posts r = [] \<and> state_after r = state)"
proof -
  from process_transcript_Inr[OF assms]
  consider (noop) "r = no_op state"
    | (run) new_messages st st1 st2 where
       "run_loop E clock net session_id (stored_turn_count state session_id) new_messages
         initial_state = Inr st"
       "finalize_message E st = Inr st1"
       "compile_turn E clock net session_id (stored_turn_count state session_id) st1 = Inr st2"
       "r = \<lparr>returned = turns_processed st2,
            state_after = state(session_id \<mapsto>
              \<lparr>last_line = total_lines text,
               turn_count = stored_turn_count state session_id + turns_processed st2,
               updated = now\<rparr>),
            saved = True, posts = sent st2, error_log = send_errors st2\<rparr>"
    by blast
  then show ?thesis
  proof cases
    case noop
    then show ?thesis by (simp add: no_op_def)
  next
    case run
    have "numbered (stored_turn_count state session_id) session_id st2"
      by (rule compile_turn_numbered[OF run(3)], rule finalize_message_numbered[OF run(2)],
          rule run_loop_numbered[OF run(1)], rule numbered_initial)
    then show ?thesis by (simp add: run(4) numbered_def list_all_iff traced_def)
  qed
qed

lemma demo_run_two:
  "case process_transcript demo_env demo_clock (\<lambda>n sp. True) ''now'' ''S'' demo_text (demo_state 4 2) of
     Inr r \<Rightarrow> returned r = 1 | Inl e \<Rightarrow> False"
  by code_simp

lemma str_of_int_3: "str_of_int 3 = ''3''"
  by code_simp

theorem process_transcript_turn_numbers_witness:
  "\<exists>r. process_transcript demo_env demo_clock (\<lambda>n sp. True) ''now'' ''S'' demo_text (demo_state 4 2) = Inr r \<and>
       returned r = 1 \<and> map fst (posts r) = [3] \<and>
       list_all
         (\<lambda>b. snd b \<noteq> [] \<and>
              list_all (\<lambda>sp. map_of sp ''trace_unique_id'' = Some (PJ (JStr ''S_turn_3''))) (snd b))
         (posts r) \<and>
       saved r \<and>
       state_after r ''S'' = Some \<lparr>last_line = 6, turn_count = 3, updated = ''now''\<rparr>"
proof -
  from demo_run_two obtain r where
    run: "process_transcript demo_env demo_clock (\<lambda>n sp. True) ''now'' ''S'' demo_text (demo_state 4 2) = Inr r"
    and n: "returned r = 1"
    by (auto split: sum.splits)
  have k: "stored_turn_count (demo_state 4 2) ''S'' = 2"
    by (simp add: stored_turn_count_def demo_state_def)
  from process_transcript_turn_numbers[OF run] n k total_lines_demo_text
  have nums: "map fst (posts r) = [3]"
    and tr: "list_all
           (\<lambda>b. snd b \<noteq> [] \<and>
                list_all (\<lambda>sp. map_of sp ''trace_unique_id'' =
                                 Some (PJ (JStr (''S'' @ ''_turn_'' @ str_of_int (fst b)))))
                  (snd b))
           (posts r)"
    and sv: "saved r"
    and st: "state_after r ''S'' = Some \<lparr>last_line = 6, turn_count = 3, updated = ''now''\<rparr>"
    by (simp_all add: upto.simps)
  from nums obtain b where b: "posts r = [b]" "fst b = 3"
    by (cases "posts r") auto
  from tr have "list_all
         (\<lambda>b. snd b \<noteq> [] \<and>
              list_all (\<lambda>sp. map_of sp ''trace_unique_id'' = Some (PJ (JStr ''S_turn_3''))) (snd b))
         (posts r)"
    by (simp add: b str_of_int_3)
  with run n nums sv st show ?thesis
    by (intro exI[of _ r] conjI)
qed

subsection \<open>The span tree\<close>

definition demo_turn_msg :: json where
  "demo_turn_msg =
     asst_rec ''m1''
       [JObj [(''type'', JStr ''thinking''), (''thinking'', JStr ''let me compute'')],
        JObj [(''type'', JStr ''tool_use''), (''id'', JStr ''t1''), (''name'', JStr ''Read''),
              (''input'', JObj [(''file_path'', JStr ''/f'')])],
        text_block ''4'']"

definition is_root :: "span \<Rightarrow> bool" where
  "is_root sp = (map_of sp ''log_type'' = Some (PJ (JStr ''agent'')))"

lemma child_not_root: "child_of ''generation'' s n sp \<Longrightarrow> \<not> is_root sp"
  "child_of ''tool'' s n sp \<Longrightarrow> \<not> is_root sp"
  by (simp_all add: child_of_def is_root_def)

lemma filter_none: "list_all (\<lambda>x. \<not> P x) xs \<Longrightarrow> filter P xs = []"
  by (induction xs) auto

text \<open>
  Claim C10. The list a compiled turn returns is one root span (\<^verbatim>\<open>log_type\<close>
  agent, \<^verbatim>\<open>span_parent_id\<close> None, \<^verbatim>\<open>span_unique_id\<close> \<^verbatim>\<open>turn_{turn_num}_chat\<close>),
  then the thinking spans, then the tool spans. Every other span has the root's
  \<^verbatim>\<open>span_unique_id\<close> as its parent, no other span is a root, and all spans
  carry the trace identifier \<^verbatim>\<open>{session_id}_turn_{turn_num}\<close>.
\<close>

theorem create_keywordsai_spans_tree:
  assumes "create_keywordsai_spans E clk session_id turn_num user_msg assistant_msgs tool_results = Inr spans"
  shows "\<exists>root thinking tools.
           spans = root # thinking @ tools \<and>
           map_of root ''log_type'' = Some (PJ (JStr ''agent'')) \<and>
           map_of root ''span_parent_id'' = Some (PJ JNull) \<and>
           map_of root ''span_unique_id'' = Some (PJ (JStr (''turn_'' @ str_of_int turn_num @ ''_chat''))) \<and>
           list_all (\<lambda>sp. map_of sp ''log_type'' = Some (PJ (JStr ''generation'')) \<and>
                          map_of sp ''span_parent_id'' = map_of root ''span_unique_id'') thinking \<and>
           list_all (\<lambda>sp. map_of sp ''log_type'' = Some (PJ (JStr ''tool'')) \<and>
                          map_of sp ''span_parent_id'' = map_of root ''span_unique_id'') tools \<and>
           list_all (\<lambda>sp. map_of sp ''trace_unique_id'' =
                            Some (PJ (JStr (session_id @ ''_turn_'' @ str_of_int turn_num)))) spans \<and>
           filter (\<lambda>sp. map_of sp ''log_type'' = Some (PJ (JStr ''agent''))) spans = [root]"
proof -
  from create_keywordsai_spans_parts[OF assms] obtain root thinking tools where
    p: "spans = root # thinking @ tools"
      "map_of root ''log_type'' = Some (PJ (JStr ''agent''))"
      "map_of root ''span_parent_id'' = Some (PJ JNull)"
      "map_of root ''span_unique_id'' = Some (PJ (JStr (chat_span_id turn_num)))"
      "map_of root ''trace_unique_id'' = Some (PJ (JStr (trace_id session_id turn_num)))"
      "list_all (child_of ''generation'' session_id turn_num) thinking"
      "list_all (child_of ''tool'' session_id turn_num) tools"
    by blast
  have "list_all (\<lambda>sp. \<not> is_root sp) thinking" "list_all (\<lambda>sp. \<not> is_root sp) tools"
    using p(6,7) child_not_root unfolding list_all_iff by blast+
  then have "filter is_root thinking = []" "filter is_root tools = []"
    by (simp_all add: filter_none)
  then have "filter is_root spans = [root]"
    using p(1,2) by (simp add: is_root_def)
  then have one: "filter (\<lambda>sp. map_of sp ''log_type'' = Some (PJ (JStr ''agent''))) spans = [root]"
    by (simp add: is_root_def[abs_def])
  have th: "list_all (\<lambda>sp. map_of sp ''log_type'' = Some (PJ (JStr ''generation'')) \<and>
                          map_of sp ''span_parent_id'' = map_of root ''span_unique_id'') thinking"
    using p(4,6) by (simp add: list_all_iff child_of_def)
  have tl: "list_all (\<lambda>sp. map_of sp ''log_type'' = Some (PJ (JStr ''tool'')) \<and>
                          map_of sp ''span_parent_id'' = map_of root ''span_unique_id'') tools"
    using p(4,7) by (simp add: list_all_iff child_of_def)
  have tr: "list_all (\<lambda>sp. map_of sp ''trace_unique_id'' =
                            Some (PJ (JStr (session_id @ ''_turn_'' @ str_of_int turn_num)))) spans"
    using p(1,5,6,7) by (auto simp: list_all_iff child_of_def trace_id_def)
  have id: "map_of root ''span_unique_id'' = Some (PJ (JStr (''turn_'' @ str_of_int turn_num @ ''_chat'')))"
    using p(4) by (simp add: chat_span_id_def)
  from p(1,2,3) id th tl tr one show ?thesis
    by (intro exI[of _ root] exI[of _ thinking] exI[of _ tools] conjI)
qed

lemma demo_turn_compiles:
  "case create_keywordsai_spans demo_env (demo_clock 1) ''S'' 1 (user_rec ''2+2?'') [demo_turn_msg] [] of
     Inr spans \<Rightarrow> length spans = 3 | Inl e \<Rightarrow> False"
  by code_simp

lemma demo_turn_kinds:
  "case create_keywordsai_spans demo_env (demo_clock 1) ''S'' 1 (user_rec ''2+2?'') [demo_turn_msg] [] of
     Inr spans \<Rightarrow>
       map (\<lambda>sp. map_of sp ''log_type'') spans =
         [Some (PJ (JStr ''agent'')), Some (PJ (JStr ''generation'')), Some (PJ (JStr ''tool''))]
   | Inl e \<Rightarrow> False"
  by code_simp

lemma str_of_int_1: "str_of_int 1 = ''1''"
  by code_simp

theorem create_keywordsai_spans_tree_witness:
  "\<exists>spans root thinking tools.
     create_keywordsai_spans demo_env (demo_clock 1) ''S'' 1 (user_rec ''2+2?'') [demo_turn_msg] [] = Inr spans \<and>
     map (\<lambda>sp. map_of sp ''log_type'') spans =
       [Some (PJ (JStr ''agent'')), Some (PJ (JStr ''generation'')), Some (PJ (JStr ''tool''))] \<and>
     spans = root # thinking @ tools \<and>
     map_of root ''span_parent_id'' = Some (PJ JNull) \<and>
     map_of root ''span_unique_id'' = Some (PJ (JStr ''turn_1_chat'')) \<and>
     list_all (\<lambda>sp. map_of sp ''span_parent_id'' = Some (PJ (JStr ''turn_1_chat''))) (thinking @ tools) \<and>
     list_all (\<lambda>sp. map_of sp ''trace_unique_id'' = Some (PJ (JStr ''S_turn_1''))) spans \<and>
     filter (\<lambda>sp. map_of sp ''log_type'' = Some (PJ (JStr ''agent''))) spans = [root]"
proof -
  from demo_turn_kinds obtain spans where
    run: "create_keywordsai_spans demo_env (demo_clock 1) ''S'' 1 (user_rec ''2+2?'') [demo_turn_msg] [] = Inr spans"
    and kinds: "map (\<lambda>sp. map_of sp ''log_type'') spans =
       [Some (PJ (JStr ''agent'')), Some (PJ (JStr ''generation'')), Some (PJ (JStr ''tool''))]"
    by (cases "create_keywordsai_spans demo_env (demo_clock 1) ''S'' 1 (user_rec ''2+2?'')
                 [demo_turn_msg] []") simp_all
  from create_keywordsai_spans_tree[OF run] obtain root thinking tools where
    t: "spans = root # thinking @ tools"
      "map_of root ''log_type'' = Some (PJ (JStr ''agent''))"
      "map_of root ''span_parent_id'' = Some (PJ JNull)"
      "map_of root ''span_unique_id'' = Some (PJ (JStr (''turn_'' @ str_of_int 1 @ ''_chat'')))"
      "list_all (\<lambda>sp. map_of sp ''log_type'' = Some (PJ (JStr ''generation'')) \<and>
                          map_of sp ''span_parent_id'' = map_of root ''span_unique_id'') thinking"
      "list_all (\<lambda>sp. map_of sp ''log_type'' = Some (PJ (JStr ''tool'')) \<and>
                          map_of sp ''span_parent_id'' = map_of root ''span_unique_id'') tools"
      "list_all (\<lambda>sp. map_of sp ''trace_unique_id'' =
                            Some (PJ (JStr (''S'' @ ''_turn_'' @ str_of_int 1)))) spans"
      "filter (\<lambda>sp. map_of sp ''log_type'' = Some (PJ (JStr ''agent''))) spans = [root]"
    by (elim exE conjE)
  have id: "map_of root ''span_unique_id'' = Some (PJ (JStr ''turn_1_chat''))"
    using t(4) by (simp add: str_of_int_1)
  have par: "list_all (\<lambda>sp. map_of sp ''span_parent_id'' = Some (PJ (JStr ''turn_1_chat'')))
               (thinking @ tools)"
    using t(5,6) id by (auto simp: list_all_iff)
  have tr: "list_all (\<lambda>sp. map_of sp ''trace_unique_id'' = Some (PJ (JStr ''S_turn_1''))) spans"
    using t(7) by (simp add: str_of_int_1)
  from run kinds t(1,3) id par tr t(8) show ?thesis
    by (intro exI[of _ spans] exI[of _ root] exI[of _ thinking] exI[of _ tools] conjI)
qed

subsection \<open>Failed emissions\<close>

definition same_but_log :: "loop_state \<Rightarrow> loop_state \<Rightarrow> bool" where
  "same_but_log a b =
     (turns_processed a = turns_processed b \<and> current_user a = current_user b \<and>
      current_assistants a = current_assistants b \<and>
      current_assistant_parts a = current_assistant_parts b \<and>
      current_msg_id a = current_msg_id b \<and>
      current_tool_results a = current_tool_results b \<and> sent a = sent b)"

lemma bind_r_rel:
  assumes "rel_sum (=) R m m'" and "\<And>x y. R x y \<Longrightarrow> rel_sum (=) S (f x) (g y)"
  shows "rel_sum (=) S (bind_r m f) (bind_r m' g)"
  using assms by (cases m; cases m') (auto simp: bind_r_def)

lemma rel_sum_refl_eq: "rel_sum (=) (=) m m"
  by (cases m) auto

lemma compile_turn_net:
  assumes "same_but_log a b"
  shows "rel_sum (=) same_but_log (compile_turn E clock net session_id k a)
           (compile_turn E clock net' session_id k b)"
proof -
  from assms have eq: "turns_processed a = turns_processed b" "current_user a = current_user b"
    "current_assistants a = current_assistants b" "current_tool_results a = current_tool_results b"
    by (simp_all add: same_but_log_def)
  show ?thesis
    unfolding compile_turn_def Let_def eq
    using assms
    by (cases "create_keywordsai_spans E (clock (k + (turns_processed b + 1))) session_id
           (k + (turns_processed b + 1)) (current_user b) (current_assistants b) (current_tool_results b)")
       (auto simp: same_but_log_def)
qed

lemma finalize_message_net:
  assumes "same_but_log a b"
  shows "rel_sum (=) same_but_log (finalize_message E a) (finalize_message E b)"
proof -
  from assms have eq: "current_msg_id a = current_msg_id b"
    "current_assistant_parts a = current_assistant_parts b"
    by (simp_all add: same_but_log_def)
  show ?thesis
    unfolding finalize_message_def eq
    using assms
    by (cases "merge_assistant_parts (py_repr E) (current_assistant_parts b)")
       (auto simp: same_but_log_def)
qed

lemma step_net:
  assumes "same_but_log a b"
  shows "rel_sum (=) same_but_log (step E clock net session_id k a msg)
           (step E clock net' session_id k b msg)"
  unfolding step_def
proof (rule bind_r_rel[OF rel_sum_refl_eq], clarify)
  fix role
  show "rel_sum (=) same_but_log
        (if role = JStr ''user''
         then bind_r (is_tool_result msg)
               (\<lambda>tr. if tr
                     then Inr (a\<lparr>current_tool_results := current_tool_results a @ [msg]\<rparr>)
                     else bind_r (finalize_message E a)
                           (\<lambda>st1. bind_r (compile_turn E clock net session_id k st1)
                              (\<lambda>st2. Inr (st2\<lparr>current_user := msg, current_assistants := [],
                                         current_assistant_parts := [], current_msg_id := JNull,
                                         current_tool_results := []\<rparr>))))
         else if role = JStr ''assistant''
              then bind_r (msg_id_of msg)
                    (\<lambda>msg_id.
                        if \<not> py_truthy msg_id
                        then Inr (a\<lparr>current_assistant_parts := current_assistant_parts a @ [msg]\<rparr>)
                        else if py_eq msg_id (current_msg_id a)
                             then Inr (a\<lparr>current_assistant_parts := current_assistant_parts a @ [msg]\<rparr>)
                             else bind_r (finalize_message E a)
                                   (\<lambda>st1. Inr (st1\<lparr>current_msg_id := msg_id, current_assistant_parts := [msg]\<rparr>)))
              else Inr a)
        (if role = JStr ''user''
         then bind_r (is_tool_result msg)
               (\<lambda>tr. if tr
                     then Inr (b\<lparr>current_tool_results := current_tool_results b @ [msg]\<rparr>)
                     else bind_r (finalize_message E b)
                           (\<lambda>st1. bind_r (compile_turn E clock net' session_id k st1)
                              (\<lambda>st2. Inr (st2\<lparr>current_user := msg, current_assistants := [],
                                         current_assistant_parts := [], current_msg_id := JNull,
                                         current_tool_results := []\<rparr>))))
         else if role = JStr ''assistant''
              then bind_r (msg_id_of msg)
                    (\<lambda>msg_id.
                        if \<not> py_truthy msg_id
                        then Inr (b\<lparr>current_assistant_parts := current_assistant_parts b @ [msg]\<rparr>)
                        else if py_eq msg_id (current_msg_id b)
                             then Inr (b\<lparr>current_assistant_parts := current_assistant_parts b @ [msg]\<rparr>)
                             else bind_r (finalize_message E b)
                                   (\<lambda>st1. Inr (st1\<lparr>current_msg_id := msg_id, current_assistant_parts := [msg]\<rparr>)))
              else Inr b)"
  proof (cases "role = JStr ''user''")
    case True
    have "rel_sum (=) same_but_log
        (bind_r (is_tool_result msg)
               (\<lambda>tr. if tr
                     then Inr (a\<lparr>current_tool_results := current_tool_results a @ [msg]\<rparr>)
                     else bind_r (finalize_message E a)
                           (\<lambda>st1. bind_r (compile_turn E clock net session_id k st1)
                              (\<lambda>st2. Inr (st2\<lparr>current_user := msg, current_assistants := [],
                                         current_assistant_parts := [], current_msg_id := JNull,
                                         current_tool_results := []\<rparr>)))))
        (bind_r (is_tool_result msg)
               (\<lambda>tr. if tr
                     then Inr (b\<lparr>current_tool_results := current_tool_results b @ [msg]\<rparr>)
                     else bind_r (finalize_message E b)
                           (\<lambda>st1. bind_r (compile_turn E clock net' session_id k st1)
                              (\<lambda>st2. Inr (st2\<lparr>current_user := msg, current_assistants := [],
                                         current_assistant_parts := [], current_msg_id := JNull,
                                         current_tool_results := []\<rparr>)))))"
    proof (rule bind_r_rel[OF rel_sum_refl_eq], clarify)
      fix tr
      show "rel_sum (=) same_but_log
          (if tr then Inr (a\<lparr>current_tool_results := current_tool_results a @ [msg]\<rparr>)
                     else bind_r (finalize_message E a)
                           (\<lambda>st1. bind_r (compile_turn E clock net session_id k st1)
                              (\<lambda>st2. Inr (st2\<lparr>current_user := msg, current_assistants := [],
                                         current_assistant_parts := [], current_msg_id := JNull,
                                         current_tool_results := []\<rparr>))))
          (if tr then Inr (b\<lparr>current_tool_results := current_tool_results b @ [msg]\<rparr>)
                     else bind_r (finalize_message E b)
                           (\<lambda>st1. bind_r (compile_turn E clock net' session_id k st1)
                              (\<lambda>st2. Inr (st2\<lparr>current_user := msg, current_assistants := [],
                                         current_assistant_parts := [], current_msg_id := JNull,
                                         current_tool_results := []\<rparr>))))"
      proof (cases tr)
        case True
        with assms show ?thesis by (simp add: same_but_log_def)
      next
        case False
        have "rel_sum (=) same_but_log
           (bind_r (finalize_message E a)
                           (\<lambda>st1. bind_r (compile_turn E clock net session_id k st1)
                              (\<lambda>st2. Inr (st2\<lparr>current_user := msg, current_assistants := [],
                                         current_assistant_parts := [], current_msg_id := JNull,
                                         current_tool_results := []\<rparr>))))
           (bind_r (finalize_message E b)
                           (\<lambda>st1. bind_r (compile_turn E clock net' session_id k st1)
                              (\<lambda>st2. Inr (st2\<lparr>current_user := msg, current_assistants := [],
                                         current_assistant_parts := [], current_msg_id := JNull,
                                         current_tool_results := []\<rparr>))))"
          by (rule bind_r_rel[OF finalize_message_net[OF assms]],
              rule bind_r_rel[OF compile_turn_net], assumption)
             (simp add: same_but_log_def)
        with False show ?thesis by simp
      qed
    qed
    with True show ?thesis by simp
  next
    case nu: False
    show ?thesis
    proof (cases "role = JStr ''assistant''")
      case True
      have "rel_sum (=) same_but_log
           (bind_r (msg_id_of msg)
                    (\<lambda>msg_id.
                        if \<not> py_truthy msg_id
                        then Inr (a\<lparr>current_assistant_parts := current_assistant_parts a @ [msg]\<rparr>)
                        else if py_eq msg_id (current_msg_id a)
                             then Inr (a\<lparr>current_assistant_parts := current_assistant_parts a @ [msg]\<rparr>)
                             else bind_r (finalize_message E a)
                                   (\<lambda>st1. Inr (st1\<lparr>current_msg_id := msg_id, current_assistant_parts := [msg]\<rparr>))))
           (bind_r (msg_id_of msg)
                    (\<lambda>msg_id.
                        if \<not> py_truthy msg_id
                        then Inr (b\<lparr>current_assistant_parts := current_assistant_parts b @ [msg]\<rparr>)
                        else if py_eq msg_id (current_msg_id b)
                             then Inr (b\<lparr>current_assistant_parts := current_assistant_parts b @ [msg]\<rparr>)
                             else bind_r (finalize_message E b)
                                   (\<lambda>st1. Inr (st1\<lparr>current_msg_id := msg_id, current_assistant_parts := [msg]\<rparr>))))"
      proof (rule bind_r_rel[OF rel_sum_refl_eq], clarify)
        fix msg_id
        have fin: "rel_sum (=) same_but_log
            (bind_r (finalize_message E a)
               (\<lambda>st1. Inr (st1\<lparr>current_msg_id := msg_id, current_assistant_parts := [msg]\<rparr>)))
            (bind_r (finalize_message E b)
               (\<lambda>st1. Inr (st1\<lparr>current_msg_id := msg_id, current_assistant_parts := [msg]\<rparr>)))"
          by (rule bind_r_rel[OF finalize_message_net[OF assms]]) (simp add: same_but_log_def)
        from assms have id: "current_msg_id a = current_msg_id b" by (simp add: same_but_log_def)
        show "rel_sum (=) same_but_log
              (if \<not> py_truthy msg_id
                        then Inr (a\<lparr>current_assistant_parts := current_assistant_parts a @ [msg]\<rparr>)
                        else if py_eq msg_id (current_msg_id a)
                             then Inr (a\<lparr>current_assistant_parts := current_assistant_parts a @ [msg]\<rparr>)
                             else bind_r (finalize_message E a)
                                   (\<lambda>st1. Inr (st1\<lparr>current_msg_id := msg_id, current_assistant_parts := [msg]\<rparr>)))
              (if \<not> py_truthy msg_id
                        then Inr (b\<lparr>current_assistant_parts := current_assistant_parts b @ [msg]\<rparr>)
                        else if py_eq msg_id (current_msg_id b)
                             then Inr (b\<lparr>current_assistant_parts := current_assistant_parts b @ [msg]\<rparr>)
                             else bind_r (finalize_message E b)
                                   (\<lambda>st1. Inr (st1\<lparr>current_msg_id := msg_id, current_assistant_parts := [msg]\<rparr>)))"
          using fin assms unfolding id by (simp add: same_but_log_def)
      qed
      with True nu show ?thesis by simp
    next
      case False
      with nu assms show ?thesis by simp
    qed
  qed
qed

lemma run_loop_net:
  "same_but_log a b \<Longrightarrow>
   rel_sum (=) same_but_log (run_loop E clock net session_id k msgs a)
     (run_loop E clock net' session_id k msgs b)"
proof (induction msgs arbitrary: a b)
  case Nil
  then show ?case by simp
next
  case (Cons msg msgs)
  show ?case
    unfolding run_loop.simps
    by (rule bind_r_rel[OF step_net[OF Cons.prems]]) (rule Cons.IH)
qed

subsection \<open>The error log\<close>

definition logged :: "(int \<Rightarrow> span list \<Rightarrow> bool) \<Rightarrow> loop_state \<Rightarrow> bool" where
  "logged net st =
     (send_errors st = map fst (filter (\<lambda>b. \<not> net (fst b) (snd b)) (sent st)) \<and>
      turns_processed st = int (length (sent st)))"

lemma logged_initial: "logged net initial_state"
  by (simp add: logged_def initial_state_def)

lemma compile_turn_Inr:
  assumes "compile_turn E clock net session_id k st = Inr st'"
  obtains (skipped) "\<not> (py_truthy (current_user st) \<and> current_assistants st \<noteq> [])" "st' = st"
  | (compiled) spans where "py_truthy (current_user st)" "current_assistants st \<noteq> []"
      "create_keywordsai_spans E (clock (k + (turns_processed st + 1))) session_id
         (k + (turns_processed st + 1)) (current_user st) (current_assistants st)
         (current_tool_results st) = Inr spans"
      "st' = st\<lparr>turns_processed := turns_processed st + 1,
                 sent := sent st @ [(k + (turns_processed st + 1), spans)],
                 send_errors := (if net (k + (turns_processed st + 1)) spans then send_errors st
                                 else send_errors st @ [k + (turns_processed st + 1)])\<rparr>"
proof (cases "py_truthy (current_user st) \<and> current_assistants st \<noteq> []")
  case True
  with assms obtain spans where
    "create_keywordsai_spans E (clock (k + (turns_processed st + 1))) session_id
         (k + (turns_processed st + 1)) (current_user st) (current_assistants st)
         (current_tool_results st) = Inr spans"
      "st' = st\<lparr>turns_processed := turns_processed st + 1,
                 sent := sent st @ [(k + (turns_processed st + 1), spans)],
                 send_errors := (if net (k + (turns_processed st + 1)) spans then send_errors st
                                 else send_errors st @ [k + (turns_processed st + 1)])\<rparr>"
    unfolding compile_turn_def Let_def by (auto simp: bind_r_Inr)
  with True show ?thesis by (intro compiled) simp_all
next
  case False
  with assms have "st' = st" by (simp add: compile_turn_def)
  with False show ?thesis by (rule skipped)
qed

lemma compile_turn_logged:
  assumes "compile_turn E clock net session_id k st = Inr st'" and "logged net st"
  shows "logged net st'"
  using assms(1)
proof (cases rule: compile_turn_Inr)
  case skipped
  with assms(2) show ?thesis by simp
next
  case (compiled spans)
  with assms(2) show ?thesis by (simp add: logged_def)
qed

lemma finalize_message_logged:
  "finalize_message E st = Inr st' \<Longrightarrow> logged net st \<Longrightarrow> logged net st'"
  by (simp add: logged_def finalize_message_fields)

lemma step_logged:
  assumes "step E clock net session_id k st msg = Inr st'" and "logged net st"
  shows "logged net st'"
  using assms(1)
proof (cases rule: step_Inr)
  case (user st1 st2)
  from compile_turn_logged[OF user(2) finalize_message_logged[OF user(1) assms(2)]]
  show ?thesis by (simp add: user(3) logged_def)
next
  case (new_message st1 msg_id)
  from finalize_message_logged[OF new_message(1) assms(2)]
  show ?thesis by (simp add: new_message(2) logged_def)
qed (use assms(2) in \<open>simp_all add: logged_def\<close>)

lemma run_loop_logged:
  "run_loop E clock net session_id k msgs st = Inr st' \<Longrightarrow> logged net st \<Longrightarrow> logged net st'"
  by (induction msgs arbitrary: st) (auto simp: bind_r_Inr dest: step_logged)

lemma rel_sum_Inr:
  "rel_sum (=) R m m' \<Longrightarrow> m = Inr x \<Longrightarrow> \<exists>y. m' = Inr y \<and> R x y"
  by (cases m') auto

lemma same_but_log_refl: "same_but_log a a"
  by (simp add: same_but_log_def)

text \<open>
  Claim C7. A run in which emissions fail is, apart from the error log, the run
  in which every emission succeeds: the same batches are handed to the POST in
  the same order (so later turns are still processed), the same number is
  returned and the same state is saved, with \<^verbatim>\<open>last_line\<close> = the number of lines
  and \<^verbatim>\<open>turn_count\<close> increased by the number of compiled turns. The error log
  lists exactly the turns whose POST failed.
\<close>

theorem process_transcript_emission_failures:
  assumes run: "process_transcript E clock net now session_id text state = Inr r"
    and failed: "error_log r \<noteq> []"
  shows "\<exists>r'. process_transcript E clock (\<lambda>n sp. True) now session_id text state = Inr r' \<and>
           error_log r' = [] \<and> posts r' = posts r \<and> returned r' = returned r \<and>
           state_after r' = state_after r \<and> saved r \<and>
           state_after r session_id =
             Some \<lparr>last_line = total_lines text,
                   turn_count = stored_turn_count state session_id + int (length (posts r)),
                   updated = now\<rparr> \<and>
           error_log r = map fst (filter (\<lambda>b. \<not> net (fst b) (snd b)) (posts r))"
proof -
  let ?k = "stored_turn_count state session_id"
  from process_transcript_Inr[OF run] failed
  obtain new_messages st st1 st2 where
    lt: "stored_last_line state session_id < total_lines text"
    and p: "parse_lines E (transcript_lines text)
         [stored_last_line state session_id..total_lines text - 1] = Inr new_messages"
    and ne: "new_messages \<noteq> []"
    and l: "run_loop E clock net session_id ?k new_messages initial_state = Inr st"
    and f: "finalize_message E st = Inr st1"
    and c: "compile_turn E clock net session_id ?k st1 = Inr st2"
    and r: "r = \<lparr>returned = turns_processed st2,
            state_after = state(session_id \<mapsto>
              \<lparr>last_line = total_lines text, turn_count = ?k + turns_processed st2, updated = now\<rparr>),
            saved = True, posts = sent st2, error_log = send_errors st2\<rparr>"
    by (auto simp: no_op_def)
  from rel_sum_Inr[OF run_loop_net[OF same_but_log_refl] l]
  obtain st' where l': "run_loop E clock (\<lambda>n sp. True) session_id ?k new_messages initial_state = Inr st'"
    and s: "same_but_log st st'" by blast
  from rel_sum_Inr[OF finalize_message_net[OF s] f]
  obtain st1' where f': "finalize_message E st' = Inr st1'" and s1: "same_but_log st1 st1'" by blast
  from rel_sum_Inr[OF compile_turn_net[OF s1] c]
  obtain st2' where c': "compile_turn E clock (\<lambda>n sp. True) session_id ?k st1' = Inr st2'"
    and s2: "same_but_log st2 st2'" by blast
  have lg: "logged net st2"
    by (rule compile_turn_logged[OF c], rule finalize_message_logged[OF f],
        rule run_loop_logged[OF l], rule logged_initial)
  have lg': "logged (\<lambda>n sp. True) st2'"
    by (rule compile_turn_logged[OF c'], rule finalize_message_logged[OF f'],
        rule run_loop_logged[OF l'], rule logged_initial)
  have run': "process_transcript E clock (\<lambda>n sp. True) now session_id text state =
      Inr \<lparr>returned = turns_processed st2',
            state_after = state(session_id \<mapsto>
              \<lparr>last_line = total_lines text, turn_count = ?k + turns_processed st2', updated = now\<rparr>),
            saved = True, posts = sent st2', error_log = send_errors st2'\<rparr>"
    using lt p ne l' f' c' by (simp add: process_transcript_def Let_def)
  show ?thesis
    using run' lg lg' s2 by (simp add: r logged_def same_but_log_def)
qed


lemma demo_run_failing:
  "case process_transcript demo_env demo_clock (\<lambda>n sp. False) ''now'' ''S'' demo_text (demo_state 0 0) of
     Inr r \<Rightarrow> error_log r = [1, 2, 3] | Inl e \<Rightarrow> False"
  by code_simp

theorem process_transcript_emission_failures_witness:
  "\<exists>r r'. process_transcript demo_env demo_clock (\<lambda>n sp. False) ''now'' ''S'' demo_text (demo_state 0 0) = Inr r \<and>
     error_log r = [1, 2, 3] \<and>
     process_transcript demo_env demo_clock (\<lambda>n sp. True) ''now'' ''S'' demo_text (demo_state 0 0) = Inr r' \<and>
     error_log r' = [] \<and> posts r' = posts r \<and> returned r' = returned r \<and>
     state_after r' = state_after r \<and> length (posts r) = 3 \<and>
     state_after r ''S'' = Some \<lparr>last_line = 6, turn_count = 3, updated = ''now''\<rparr>"
proof -
  from demo_run_failing obtain r where
    run: "process_transcript demo_env demo_clock (\<lambda>n sp. False) ''now'' ''S'' demo_text (demo_state 0 0) = Inr r"
    and log: "error_log r = [1, 2, 3]"
    by (auto split: sum.splits)
  from log have failed: "error_log r \<noteq> []" by simp
  have k: "stored_turn_count (demo_state 0 0) ''S'' = 0"
    by (simp add: stored_turn_count_def demo_state_def)
  from process_transcript_emission_failures[OF run failed] obtain r' where
    r': "process_transcript demo_env demo_clock (\<lambda>n sp. True) ''now'' ''S'' demo_text (demo_state 0 0) = Inr r'"
      "error_log r' = []" "posts r' = posts r" "returned r' = returned r"
      "state_after r' = state_after r"
    and st: "state_after r ''S'' =
             Some \<lparr>last_line = total_lines demo_text,
                   turn_count = stored_turn_count (demo_state 0 0) ''S'' + int (length (posts r)),
                   updated = ''now''\<rparr>"
    and el: "error_log r = map fst (filter (\<lambda>b. \<not> False) (posts r))"
    by blast
  from el have "length (error_log r) = length (posts r)" by simp
  with log have len: "length (posts r) = 3" by simp
  show ?thesis
    using run log r' st len by (simp add: k total_lines_demo_text)
qed

subsection \<open>A user message left open at the end of the stream\<close>

lemma run_loop_append:
  "run_loop E clock net session_id k (xs @ ys) st =
     bind_r (run_loop E clock net session_id k xs st) (run_loop E clock net session_id k ys)"
proof (induction xs arbitrary: st)
  case (Cons x xs)
  show ?case
    by (cases "step E clock net session_id k st x") (simp_all add: Cons.IH)
qed simp

lemma user_record_truthy:
  assumes "get_role msg = Inr (JStr ''user'')"
  shows "py_truthy msg"
proof (cases msg)
  case (JObj d)
  with assms show ?thesis
    by (cases d) (auto simp: get_role_def dget_def dget_default_def split: if_splits)
qed (use assms in \<open>simp_all add: get_role_def\<close>)

lemma step_plain_user:
  assumes "step E clock net session_id k st msg = Inr st'"
    and "get_role msg = Inr (JStr ''user'')" and "is_tool_result msg = Inr False"
  shows "current_user st' = msg \<and> current_assistants st' = [] \<and>
         current_assistant_parts st' = [] \<and> current_msg_id st' = JNull"
  using assms by (auto simp: step_def bind_r_Inr)

text \<open>
  Whenever the last new record is a user message that is not a tool result, the
  turn it opens is the open turn at the end of the stream, with no assistant
  message and nothing left to finalize.
\<close>

lemma run_loop_ends_with_user:
  assumes "run_loop E clock net session_id k (msgs @ [msg]) st0 = Inr st"
    and "get_role msg = Inr (JStr ''user'')" and "is_tool_result msg = Inr False"
  shows "finalize_message E st = Inr st \<and> py_truthy (current_user st) \<and>
         current_assistants st = []"
proof -
  from assms(1) obtain st1 where "step E clock net session_id k st1 msg = Inr st"
    by (auto simp: run_loop_append bind_r_Inr)
  from step_plain_user[OF this assms(2,3)] user_record_truthy[OF assms(2)]
  show ?thesis by (simp add: finalize_message_def)
qed

definition dangling_text :: string where
  "dangling_text = ''u1'' @ NL @ ''a1'' @ NL @ ''u2'' @ NL"

text \<open>
  Claim C6. When, at the end of the stream and after the pending assistant
  message is finalized, the open turn has a user message and no assistant
  message, the run compiles nothing for it: what it returns and what it handed
  to the POST are what the loop had produced before. The state is saved all the
  same with \<^verbatim>\<open>last_line\<close> = the number of lines, so that a later run starts
  after the line of the open user message.
\<close>

theorem process_transcript_dangling_user:
  assumes lt: "stored_last_line state session_id < total_lines text"
    and p: "parse_lines E (transcript_lines text)
              [stored_last_line state session_id..total_lines text - 1] = Inr new_messages"
    and ne: "new_messages \<noteq> []"
    and l: "run_loop E clock net session_id (stored_turn_count state session_id) new_messages
              initial_state = Inr st"
    and f: "finalize_message E st = Inr st1"
    and user: "py_truthy (current_user st1)"
    and none: "current_assistants st1 = []"
  shows "\<exists>r. process_transcript E clock net now session_id text state = Inr r \<and>
           returned r = turns_processed st \<and> posts r = sent st \<and> error_log r = send_errors st \<and>
           saved r \<and>
           state_after r session_id =
             Some \<lparr>last_line = total_lines text,
                   turn_count = stored_turn_count state session_id + turns_processed st,
                   updated = now\<rparr> \<and>
           stored_last_line (state_after r) session_id = total_lines text"
proof -
  from none have c: "compile_turn E clock net session_id (stored_turn_count state session_id) st1 = Inr st1"
    by (simp add: compile_turn_def)
  show ?thesis
    using lt p ne l f c finalize_message_fields[OF f]
    by (simp add: process_transcript_def Let_def stored_last_line_def)
qed

lemma dangling_parse:
  "parse_lines demo_env (transcript_lines dangling_text) [0..2] =
     Inr [user_rec ''one'', asst_rec ''m1'' [text_block ''1''], user_rec ''two'']"
  by code_simp

lemma dangling_loop:
  "case run_loop demo_env demo_clock (\<lambda>n sp. True) ''S'' 0
          [user_rec ''one'', asst_rec ''m1'' [text_block ''1''], user_rec ''two''] initial_state of
     Inr st \<Rightarrow>
       (case finalize_message demo_env st of
          Inr st1 \<Rightarrow> py_truthy (current_user st1) \<and> current_assistants st1 = []
        | Inl e \<Rightarrow> False) \<and>
       turns_processed st = 1 \<and> map fst (sent st) = [1]
   | Inl e \<Rightarrow> False"
  by code_simp

theorem process_transcript_dangling_user_witness:
  "\<exists>r. process_transcript demo_env demo_clock (\<lambda>n sp. True) ''now'' ''S'' dangling_text Map.empty = Inr r \<and>
       returned r = 1 \<and> map fst (posts r) = [1] \<and> saved r \<and>
       state_after r ''S'' = Some \<lparr>last_line = 3, turn_count = 1, updated = ''now''\<rparr>"
proof -
  have tl: "total_lines dangling_text = 3" by code_simp
  have sl: "stored_last_line Map.empty ''S'' = 0" "stored_turn_count Map.empty ''S'' = 0"
    by (simp_all add: stored_last_line_def stored_turn_count_def)
  from dangling_loop obtain st where
    l: "run_loop demo_env demo_clock (\<lambda>n sp. True) ''S'' 0
          [user_rec ''one'', asst_rec ''m1'' [text_block ''1''], user_rec ''two''] initial_state = Inr st"
    and fc: "case finalize_message demo_env st of
          Inr st1 \<Rightarrow> py_truthy (current_user st1) \<and> current_assistants st1 = []
        | Inl e \<Rightarrow> False"
    and n: "turns_processed st = 1" "map fst (sent st) = [1]"
    by (cases "run_loop demo_env demo_clock (\<lambda>n sp. True) ''S'' 0
          [user_rec ''one'', asst_rec ''m1'' [text_block ''1''], user_rec ''two''] initial_state")
       simp_all
  from fc obtain st1 where f: "finalize_message demo_env st = Inr st1"
    and u: "py_truthy (current_user st1)" and a: "current_assistants st1 = []"
    by (cases "finalize_message demo_env st") simp_all
  have lt: "stored_last_line Map.empty ''S'' < total_lines dangling_text"
    by (simp add: sl tl)
  have p: "parse_lines demo_env (transcript_lines dangling_text)
              [stored_last_line Map.empty ''S''..total_lines dangling_text - 1] =
           Inr [user_rec ''one'', asst_rec ''m1'' [text_block ''1''], user_rec ''two'']"
    by (simp add: sl tl dangling_parse)
  have ne: "[user_rec ''one'', asst_rec ''m1'' [text_block ''1''], user_rec ''two''] \<noteq> []" by simp
  have l': "run_loop demo_env demo_clock (\<lambda>n sp. True) ''S'' (stored_turn_count Map.empty ''S'')
          [user_rec ''one'', asst_rec ''m1'' [text_block ''1''], user_rec ''two''] initial_state = Inr st"
    using l by (simp add: sl)
  from process_transcript_dangling_user[OF lt p ne l' f u a, of "''now''"]
  obtain r where "process_transcript demo_env demo_clock (\<lambda>n sp. True) ''now'' ''S'' dangling_text Map.empty = Inr r"
    "returned r = turns_processed st" "posts r = sent st" "saved r"
    "state_after r ''S'' = Some \<lparr>last_line = total_lines dangling_text,
                   turn_count = stored_turn_count Map.empty ''S'' + turns_processed st,
                   updated = ''now''\<rparr>"
    by blast
  then show ?thesis by (simp add: sl tl n)
qed

subsection \<open>Tool calls and the results that answer them\<close>

text \<open>
  The tool-result items of one record, the items of a turn's result records
  that answer the call stored under \<open>key\<close>, and the identifiers of the
  tool-use blocks of a turn, each in encounter order.
\<close>

definition result_items :: "json \<Rightarrow> json list" where
  "result_items tr =
     (case get_content tr of
        Inr (JArr items) \<Rightarrow> filter (is_typed ''tool_result'') items
      | _ \<Rightarrow> [])"

definition answers :: "json \<Rightarrow> json \<Rightarrow> bool" where
  "answers key item = (hash_key (dget (record_of item) ''tool_use_id'') = Inr key)"

definition results_for :: "json \<Rightarrow> json list \<Rightarrow> json list" where
  "results_for key trs = filter (answers key) (concat (map result_items trs))"

definition call_id :: "json \<Rightarrow> json" where
  "call_id tool_call = dget_default (record_of tool_call) ''id'' (JStr [])"

definition call_ids :: "json list \<Rightarrow> json list" where
  "call_ids assistant_msgs =
     concat (map (\<lambda>msg. case get_tool_calls msg of Inr tcs \<Rightarrow> map call_id tcs | Inl e \<Rightarrow> [])
               assistant_msgs)"

definition is_tool :: "span \<Rightarrow> bool" where
  "is_tool sp = (map_of sp ''log_type'' = Some (PJ (JStr ''tool'')))"

definition fresh :: "dict \<Rightarrow> bool" where
  "fresh d = (map_of d ''output'' = None \<and> map_of d ''result_metadata'' = None)"

definition answered :: "json list \<Rightarrow> dict \<Rightarrow> dict \<Rightarrow> bool" where
  "answered rs d d' =
     ((if rs = [] then d' = d else dget d' ''output'' = dget (record_of (last rs)) ''content'') \<and>
      dget d' ''name'' = dget d ''name'' \<and> dget d' ''input'' = dget d ''input'')"

lemma answered_trans:
  "answered rs1 d d1 \<Longrightarrow> answered rs2 d1 d2 \<Longrightarrow> answered (rs1 @ rs2) d d2"
  by (auto simp: answered_def split: if_splits)

lemma answered_refl: "answered [] d d"
  by (simp add: answered_def)

lemma attach_answered: "answered [item] d (attach item meta ts d)"
  by (simp add: answered_def attach_def dget_def update_conv')

lemma update_present_keys:
  "map_of tm key = Some d \<Longrightarrow> map fst (AList.update key v tm) = map fst tm"
  by (auto simp: update_keys dest: map_of_SomeD intro: rev_image_eqI)

lemma attach_results_keys:
  "attach_results meta ts items tm = Inr tm' \<Longrightarrow> map fst tm' = map fst tm"
proof (induction items arbitrary: tm)
  case (Cons item items)
  show ?case
  proof (cases "is_typed ''tool_result'' item")
    case True
    with Cons.prems obtain key where
      k: "hash_key (dget (record_of item) ''tool_use_id'') = Inr key"
      and r: "attach_results meta ts items
            (case map_of tm key of
               Some tool_data \<Rightarrow> AList.update key (attach item meta ts tool_data) tm
             | None \<Rightarrow> tm) = Inr tm'"
      by (auto simp: bind_r_Inr)
    from Cons.IH[OF r] show ?thesis
      by (cases "map_of tm key") (simp_all add: update_present_keys)
  next
    case False
    with Cons show ?thesis by simp
  qed
qed simp

lemma attach_results_entry:
  "attach_results meta ts items tm = Inr tm' \<Longrightarrow> map_of tm key = Some d \<Longrightarrow>
   \<exists>d'. map_of tm' key = Some d' \<and>
        answered (filter (answers key) (filter (is_typed ''tool_result'') items)) d d'"
proof (induction items arbitrary: tm d)
  case Nil
  then show ?case by (simp add: answered_refl)
next
  case (Cons item items)
  show ?case
  proof (cases "is_typed ''tool_result'' item")
    case False
    with Cons show ?thesis by simp
  next
    case True
    with Cons.prems obtain k where
      k: "hash_key (dget (record_of item) ''tool_use_id'') = Inr k"
      and r: "attach_results meta ts items
            (case map_of tm k of
               Some tool_data \<Rightarrow> AList.update k (attach item meta ts tool_data) tm
             | None \<Rightarrow> tm) = Inr tm'"
      by (auto simp: bind_r_Inr)
    show ?thesis
    proof (cases "k = key")
      case same: True
      with r Cons.prems(2) have r': "attach_results meta ts items
             (AList.update key (attach item meta ts d) tm) = Inr tm'" by simp
      have m: "map_of (AList.update key (attach item meta ts d) tm) key = Some (attach item meta ts d)"
        by (simp add: update_conv')
      from Cons.IH[OF r' m] obtain d' where d': "map_of tm' key = Some d'"
        "answered (filter (answers key) (filter (is_typed ''tool_result'') items))
           (attach item meta ts d) d'" by blast
      from answered_trans[OF attach_answered d'(2)] d'(1) True k same
      show ?thesis by (simp add: answers_def)
    next
      case other: False
      have m: "map_of (case map_of tm k of
               Some tool_data \<Rightarrow> AList.update k (attach item meta ts tool_data) tm
             | None \<Rightarrow> tm) key = Some d"
        using Cons.prems(2) other by (cases "map_of tm k") (simp_all add: update_conv')
      from Cons.IH[OF r m] True k other show ?thesis by (simp add: answers_def)
    qed
  qed
qed

lemma correlate_keys: "correlate trs tm = Inr tm' \<Longrightarrow> map fst tm' = map fst tm"
proof (induction trs arbitrary: tm)
  case (Cons tr trs)
  from Cons.prems obtain c meta tm1 where
    "(case c of JArr items \<Rightarrow> attach_results meta (msg_timestamp tr) items tm | _ \<Rightarrow> Inr tm) = Inr tm1"
    "correlate trs tm1 = Inr tm'"
    by (auto simp: bind_r_Inr)
  with Cons.IH[of tm1] show ?case
    by (cases c) (auto dest: attach_results_keys)
qed simp

lemma correlate_entry:
  "correlate trs tm = Inr tm' \<Longrightarrow> map_of tm key = Some d \<Longrightarrow>
   \<exists>d'. map_of tm' key = Some d' \<and> answered (results_for key trs) d d'"
proof (induction trs arbitrary: tm d)
  case Nil
  then show ?case by (simp add: results_for_def answered_refl)
next
  case (Cons tr trs)
  from Cons.prems(1) obtain c meta tm1 where
    c: "get_content tr = Inr c"
    and a: "(case c of JArr items \<Rightarrow> attach_results meta (msg_timestamp tr) items tm | _ \<Rightarrow> Inr tm) = Inr tm1"
    and r: "correlate trs tm1 = Inr tm'"
    by (auto simp: bind_r_Inr)
  have "\<exists>d1. map_of tm1 key = Some d1 \<and> answered (filter (answers key) (result_items tr)) d d1"
  proof (cases c)
    case (JArr items)
    with a c attach_results_entry[of meta "msg_timestamp tr" items tm tm1 key d] Cons.prems(2)
    show ?thesis by (simp add: result_items_def)
  qed (use a c Cons.prems(2) in \<open>auto simp: result_items_def answered_refl\<close>)
  then obtain d1 where d1: "map_of tm1 key = Some d1"
    "answered (filter (answers key) (result_items tr)) d d1" by blast
  from Cons.IH[OF r d1(1)] obtain d' where d': "map_of tm' key = Some d'"
    "answered (results_for key trs) d1 d'" by blast
  from answered_trans[OF d1(2) d'(2)] d'(1) show ?case
    by (auto simp: results_for_def)
qed


definition calls_ok :: "tool_map \<Rightarrow> bool" where
  "calls_ok tm = (distinct (map fst tm) \<and> list_all (\<lambda>e. fresh (snd e)) tm)"

lemma fresh_tool_entry: "fresh (tool_entry ts tool_call)"
  by (simp add: fresh_def tool_entry_def)

lemma set_update_subset: "set (AList.update k v al) \<subseteq> insert (k, v) (set al)"
  by (induction al) auto

lemma calls_ok_update: "calls_ok tm \<Longrightarrow> fresh v \<Longrightarrow> calls_ok (AList.update k v tm)"
  using set_update_subset[of k v tm]
  by (auto simp: calls_ok_def distinct_update list_all_iff)

lemma add_tool_calls_inv:
  "add_tool_calls ts tcs tm = Inr tm' \<Longrightarrow> calls_ok tm \<Longrightarrow>
   calls_ok tm' \<and> Inr ` fst ` set tm' = Inr ` fst ` set tm \<union> hash_key ` call_id ` set tcs"
proof (induction tcs arbitrary: tm)
  case (Cons tc tcs)
  from Cons.prems(1) obtain key where k: "hash_key (call_id tc) = Inr key"
    and r: "add_tool_calls ts tcs (AList.update key (tool_entry ts tc) tm) = Inr tm'"
    by (auto simp: bind_r_Inr call_id_def)
  from Cons.IH[OF r calls_ok_update[OF Cons.prems(2) fresh_tool_entry]] k
  show ?case by (auto simp: dom_update)
qed simp

lemma collect_tool_calls_inv:
  "collect_tool_calls msgs tm = Inr tm' \<Longrightarrow> calls_ok tm \<Longrightarrow>
   calls_ok tm' \<and> Inr ` fst ` set tm' = Inr ` fst ` set tm \<union> hash_key ` set (call_ids msgs)"
proof (induction msgs arbitrary: tm)
  case Nil
  then show ?case by (simp add: call_ids_def)
next
  case (Cons msg msgs)
  from Cons.prems(1) obtain tcs tm1 where g: "get_tool_calls msg = Inr tcs"
    and a: "add_tool_calls (msg_timestamp msg) tcs tm = Inr tm1"
    and r: "collect_tool_calls msgs tm1 = Inr tm'"
    by (auto simp: bind_r_Inr)
  have ids: "set (call_ids (msg # msgs)) = call_id ` set tcs \<union> set (call_ids msgs)"
    using g by (simp add: call_ids_def)
  from add_tool_calls_inv[OF a Cons.prems(2)] have ok1: "calls_ok tm1"
    and k1: "Inr ` fst ` set tm1 = Inr ` fst ` set tm \<union> hash_key ` call_id ` set tcs"
    by simp_all
  from Cons.IH[OF r ok1] have "calls_ok tm'"
    and "Inr ` fst ` set tm' = Inr ` fst ` set tm1 \<union> hash_key ` set (call_ids msgs)"
    by simp_all
  then show ?case
    unfolding ids k1 image_Un by (simp add: Un_assoc)
qed

lemma tool_spans_nth:
  "tool_spans E session_id turn_num tstr sstr tm k = Inr sps \<Longrightarrow>
   length sps = length tm \<and>
   (\<forall>i<length tm. tool_span E session_id turn_num tstr sstr (snd (tm ! i)) (k + i + 1) = Inr (sps ! i))"
proof (induction tm arbitrary: k sps)
  case (Cons e tm)
  obtain key d where e: "e = (key, d)" by (cases e)
  from Cons.prems obtain sp sps' where sp: "tool_span E session_id turn_num tstr sstr d (k + 1) = Inr sp"
    and r: "tool_spans E session_id turn_num tstr sstr tm (k + 1) = Inr sps'"
    and s: "sps = sp # sps'"
    by (auto simp: e bind_r_Inr)
  from Cons.IH[OF r] have len: "length sps' = length tm"
    and nth: "\<And>i. i < length tm \<Longrightarrow>
        tool_span E session_id turn_num tstr sstr (snd (tm ! i)) (k + 1 + i + 1) = Inr (sps' ! i)"
    by auto
  show ?case
  proof (intro conjI allI impI)
    show "length sps = length (e # tm)" using len s by simp
  next
    fix i assume "i < length (e # tm)"
    then show "tool_span E session_id turn_num tstr sstr (snd ((e # tm) ! i)) (k + i + 1) = Inr (sps ! i)"
      using sp nth[of "i - 1"] by (cases i) (simp_all add: e s)
  qed
qed simp

lemma tool_span_output:
  assumes "tool_span E session_id turn_num tstr sstr d num = Inr sp"
  shows "\<exists>out. format_tool_output E (dget d ''name'') (dget d ''output'') = Inr out \<and>
           map_of sp ''output'' = Some (PJ (JStr out)) \<and>
           map_of sp ''span_unique_id'' =
             Some (PJ (JStr (''turn_'' @ str_of_int turn_num @ ''_tool_'' @ str_of_nat num)))"
  using assms
  by (auto simp: tool_span_def Let_def bind_r_Inr split: if_splits)

lemma tool_span_fresh:
  assumes "tool_span E session_id turn_num tstr sstr d num = Inr sp" and "fresh d"
  shows "map_of sp ''output'' = Some (PJ (JStr [])) \<and> map_of sp ''latency'' = None \<and>
         map_of sp ''metadata'' = None"
proof -
  from assms(2) have o: "dget d ''output'' = JNull" "dget d ''result_metadata'' = JNull"
    by (simp_all add: fresh_def dget_def)
  have "format_tool_output E (dget d ''name'') JNull = Inr []"
    by (simp add: format_tool_output_def)
  with assms(1) o show ?thesis
    by (auto simp: tool_span_def Let_def bind_r_Inr)
qed

lemma filter_all: "list_all P xs \<Longrightarrow> filter P xs = xs"
  by (induction xs) auto

lemma child_is_tool: "child_of ''tool'' s n sp \<Longrightarrow> is_tool sp"
  "child_of ''generation'' s n sp \<Longrightarrow> \<not> is_tool sp"
  by (simp_all add: child_of_def is_tool_def)

text \<open>
  What a compiled turn does with its tool calls: the tool spans are the spans of
  the call map in its order, one per key, each built from the entry that
  \<^verbatim>\<open>correlate\<close> leaves under that key.
\<close>

lemma create_keywordsai_spans_tools:
  assumes "create_keywordsai_spans E clk session_id turn_num user_msg assistant_msgs tool_results = Inr spans"
  obtains (tools) tm and tm' :: tool_map and tstr sstr where
    "collect_tool_calls assistant_msgs [] = Inr tm"
    "distinct (map fst tm)"
    "Inr ` fst ` set tm = hash_key ` set (call_ids assistant_msgs)"
    "length (filter is_tool spans) = length tm"
    "\<And>i. i < length tm \<Longrightarrow> fresh (snd (tm ! i))"
    "\<And>i. i < length tm \<Longrightarrow>
       answered (results_for (fst (tm ! i)) tool_results) (snd (tm ! i)) (snd (tm' ! i))"
    "\<And>i. i < length tm \<Longrightarrow>
       tool_span E session_id turn_num tstr sstr (snd (tm' ! i)) (i + 1) =
         Inr (filter is_tool spans ! i)"
proof -
  from create_keywordsai_spans_Inr[OF assms]
  obtain user_text user_timestamp final_output info latency usage_obj thinking tm tm' tools
    where th: "thinking_loop session_id turn_num (py_or (info_timestamp info) (JStr (now_stamp clk)))
           assistant_msgs [] = Inr thinking"
    and co: "collect_tool_calls assistant_msgs [] = Inr tm"
    and cr: "correlate tool_results tm = Inr tm'"
    and tl: "tool_spans E session_id turn_num (py_or (info_timestamp info) (JStr (now_stamp clk)))
           (py_or user_timestamp (py_or (info_timestamp info) (JStr (now_start clk)))) tm' 0 = Inr tools"
    and sp: "spans = chat_span E session_id turn_num user_text final_output info
                   (py_or (info_timestamp info) (JStr (now_stamp clk)))
                   (py_or user_timestamp (py_or (info_timestamp info) (JStr (now_start clk))))
                   usage_obj latency # thinking @ tools"
    by blast
  let ?tstr = "py_or (info_timestamp info) (JStr (now_stamp clk))"
  let ?sstr = "py_or user_timestamp (py_or (info_timestamp info) (JStr (now_start clk)))"
  have ok: "calls_ok tm" and keys: "Inr ` fst ` set tm = hash_key ` set (call_ids assistant_msgs)"
    using collect_tool_calls_inv[OF co, unfolded calls_ok_def] by (simp_all add: calls_ok_def)
  have k': "map fst tm' = map fst tm" by (rule correlate_keys[OF cr])
  then have len': "length tm' = length tm" by (metis length_map)
  from tool_spans_nth[OF tl] have len: "length tools = length tm'"
    and nth: "\<And>i. i < length tm' \<Longrightarrow>
           tool_span E session_id turn_num ?tstr ?sstr (snd (tm' ! i)) (i + 1) = Inr (tools ! i)"
    by auto
  have "list_all (\<lambda>sp. \<not> is_tool sp) thinking"
    using thinking_loop_children[OF th] child_is_tool(2) unfolding list_all_iff by fastforce
  then have ft: "filter is_tool thinking = []" by (rule filter_none)
  have "list_all is_tool tools"
    using tool_spans_children[OF tl] child_is_tool(1) unfolding list_all_iff by blast
  then have fl: "filter is_tool tools = tools" by (rule filter_all)
  have root: "\<not> is_tool (chat_span E session_id turn_num user_text final_output info ?tstr ?sstr
                 usage_obj latency)"
    by (simp add: is_tool_def chat_span_root)
  have tools: "filter is_tool spans = tools" by (simp add: sp root ft fl)
  have each: "fresh (snd (tm ! i)) \<and>
        answered (results_for (fst (tm ! i)) tool_results) (snd (tm ! i)) (snd (tm' ! i))"
    if i: "i < length tm" for i
  proof -
    from ok i have d: "distinct (map fst tm)" and f: "fresh (snd (tm ! i))"
      by (simp_all add: calls_ok_def list_all_length)
    from d i have m: "map_of tm (fst (tm ! i)) = Some (snd (tm ! i))" by simp
    from correlate_entry[OF cr m] obtain d' where
      d': "map_of tm' (fst (tm ! i)) = Some d'"
        "answered (results_for (fst (tm ! i)) tool_results) (snd (tm ! i)) d'" by blast
    from d k' have "distinct (map fst tm')" by simp
    moreover from k' i len' have "fst (tm' ! i) = fst (tm ! i)"
      by (metis nth_map)
    ultimately have "map_of tm' (fst (tm ! i)) = Some (snd (tm' ! i))"
      using i len' by (metis map_of_eq_Some_iff nth_mem prod.collapse)
    with d' f show ?thesis by simp
  qed
  show thesis
  proof (rule that[of tm tm' ?tstr ?sstr])
    show "collect_tool_calls assistant_msgs [] = Inr tm" by (rule co)
    show "distinct (map fst tm)" using ok by (simp add: calls_ok_def)
    show "Inr ` fst ` set tm = hash_key ` set (call_ids assistant_msgs)" by (rule keys)
    show "length (filter is_tool spans) = length tm" using tools len len' by simp
    show "fresh (snd (tm ! i))" if "i < length tm" for i using each[OF that] by simp
    show "answered (results_for (fst (tm ! i)) tool_results) (snd (tm ! i)) (snd (tm' ! i))"
      if "i < length tm" for i using each[OF that] by simp
    show "tool_span E session_id turn_num ?tstr ?sstr (snd (tm' ! i)) (i + 1) =
         Inr (filter is_tool spans ! i)" if "i < length tm" for i
      using nth[of i] that len' tools by simp
  qed
qed

definition tool_use_block :: "string \<Rightarrow> string \<Rightarrow> json" where
  "tool_use_block i name =
     JObj [(''type'', JStr ''tool_use''), (''id'', JStr i), (''name'', JStr name),
           (''input'', JObj [(''file_path'', JStr ''/f'')])]"

definition result_rec :: "string \<Rightarrow> string \<Rightarrow> json" where
  "result_rec i c =
     JObj [(''type'', JStr ''user''),
           (''message'', JObj [(''role'', JStr ''user''),
              (''content'', JArr [JObj [(''type'', JStr ''tool_result''), (''tool_use_id'', JStr i),
                                       (''content'', JStr c)]])])]"

definition two_tools_msg :: json where
  "two_tools_msg = asst_rec ''m1'' [tool_use_block ''t1'' ''Read'', tool_use_block ''t2'' ''Grep'']"

definition late_records :: "(string \<times> json) list" where
  "late_records =
     [(''u1'', user_rec ''go''), (''a1'', asst_rec ''m1'' [tool_use_block ''t1'' ''Read'']),
      (''u2'', user_rec ''next''), (''r1'', result_rec ''t1'' ''done''),
      (''a2'', asst_rec ''m2'' [text_block ''ok''])]"

definition late_env :: env where
  "late_env = demo_env\<lparr>json_loads := map_of late_records\<rparr>"

definition late_text :: string where
  "late_text = ''u1'' @ NL @ ''a1'' @ NL @ ''u2'' @ NL @ ''r1'' @ NL @ ''a2'' @ NL"

definition tool_outputs :: "run \<Rightarrow> (int \<times> pyval option list) list" where
  "tool_outputs r =
     map (\<lambda>b. (fst b, map (\<lambda>sp. map_of sp ''output'') (filter is_tool (snd b)))) (posts r)"


lemma demo_turn_calls:
  "collect_tool_calls [demo_turn_msg] [] =
     Inr [(JStr ''t1'', tool_entry JNull (JObj [(''type'', JStr ''tool_use''), (''id'', JStr ''t1''),
            (''name'', JStr ''Read''), (''input'', JObj [(''file_path'', JStr ''/f'')])]))]"
  by code_simp



lemma two_tools_compile:
  "case create_keywordsai_spans demo_env (demo_clock 1) ''S'' 1 (user_rec ''go'') [two_tools_msg]
          [result_rec ''t2'' ''r2'', result_rec ''t1'' ''r1''] of
     Inr spans \<Rightarrow> True | Inl e \<Rightarrow> False"
  by code_simp

lemma two_tools_calls:
  "collect_tool_calls [two_tools_msg] [] =
     Inr [(JStr ''t1'', tool_entry JNull (tool_use_block ''t1'' ''Read'')),
          (JStr ''t2'', tool_entry JNull (tool_use_block ''t2'' ''Grep''))]"
  by code_simp

lemma two_tools_results:
  "results_for (JStr ''t1'') [result_rec ''t2'' ''r2'', result_rec ''t1'' ''r1''] =
     [JObj [(''type'', JStr ''tool_result''), (''tool_use_id'', JStr ''t1''), (''content'', JStr ''r1'')]]"
  "results_for (JStr ''t2'') [result_rec ''t2'' ''r2'', result_rec ''t1'' ''r1''] =
     [JObj [(''type'', JStr ''tool_result''), (''tool_use_id'', JStr ''t2''), (''content'', JStr ''r2'')]]"
  by code_simp+



subsection \<open>Fragments without a message identifier\<close>

definition idless_rec :: "json list \<Rightarrow> json" where
  "idless_rec bs =
     JObj [(''type'', JStr ''assistant''), (''message'', JObj [(''content'', JArr bs)])]"

definition idless_records :: "(string \<times> json) list" where
  "idless_records =
     [(''u1'', user_rec ''hi''),
      (''n1'', idless_rec [text_block ''A'']),
      (''b1'', asst_rec ''m1'' [text_block ''B''])]"

definition idless_env :: env where
  "idless_env = demo_env\<lparr>json_loads := map_of idless_records\<rparr>"

definition completions :: "run \<Rightarrow> (int \<times> pyval option) list" where
  "completions r = map (\<lambda>b. (fst b, map_of (hd (snd b)) ''completion_message'')) (posts r)"

text \<open>
  Claim C5 on three transcripts. A fragment without identifier that arrives while
  the message \<open>m1\<close> is open is merged into it. One that arrives when no
  message with an identifier is open is appended to \<^verbatim>\<open>current_assistant_parts\<close>,
  but those parts are finalized only under a truthy \<^verbatim>\<open>current_msg_id\<close>: when the
  stream ends there the turn has no assistant message and is not compiled, and
  when \<open>m1\<close> follows, the parts are replaced and the text \<open>A\<close> is lost.
\<close>

theorem idless_fragment_lost:
  "map_sum id completions
     (process_transcript idless_env demo_clock (\<lambda>n sp. True) ''now'' ''S''
        (''u1'' @ NL @ ''b1'' @ NL @ ''n1'') Map.empty) =
     Inr [(1, Some (PJ (JObj [(''role'', JStr ''assistant''), (''content'', JStr (''B'' @ NL @ ''A''))])))] \<and>
   map_sum id completions
     (process_transcript idless_env demo_clock (\<lambda>n sp. True) ''now'' ''S''
        (''u1'' @ NL @ ''n1'') Map.empty) = Inr [] \<and>
   map_sum id completions
     (process_transcript idless_env demo_clock (\<lambda>n sp. True) ''now'' ''S''
        (''u1'' @ NL @ ''n1'' @ NL @ ''b1'') Map.empty) =
     Inr [(1, Some (PJ (JObj [(''role'', JStr ''assistant''), (''content'', JStr ''B'')])))]"
  by code_simp

subsection \<open>Malformed fields\<close>

definition null_tokens_msg :: json where
  "null_tokens_msg =
     JObj [(''type'', JStr ''assistant''),
           (''message'', JObj [(''id'', JStr ''m1''), (''content'', JArr [text_block ''4'']),
                               (''usage'', JObj [(''input_tokens'', JNull)])])]"


subsection \<open>Well-typed turns\<close>

text \<open>
  The shapes under which the compiler does not raise: a record is a dict whose
  \<^verbatim>\<open>message\<close>, when present, is a dict; a text block carries a str; token counts
  are numbers; tool-use identifiers are hashable; the content written by a
  Write, Edit or MultiEdit call is a str; \<^verbatim>\<open>toolUseResult\<close> is a dict with a
  duration that converts to a float, or a str that names none of the four
  metadata keys; and the two timestamps of the root span are both naive or both
  aware when both parse.
\<close>

definition is_str :: "json \<Rightarrow> bool" where
  "is_str v = (case v of JStr s \<Rightarrow> True | _ \<Rightarrow> False)"

definition is_number :: "json \<Rightarrow> bool" where
  "is_number v = (case v of JInt n \<Rightarrow> True | JBool b \<Rightarrow> True | _ \<Rightarrow> False)"

definition hashable :: "json \<Rightarrow> bool" where
  "hashable v = (case v of JArr xs \<Rightarrow> False | JObj d \<Rightarrow> False | _ \<Rightarrow> True)"

definition record_ok :: "json \<Rightarrow> bool" where
  "record_ok msg =
     (case msg of
        JObj d \<Rightarrow>
          (case map_of d ''message'' of
             None \<Rightarrow> True
           | Some v \<Rightarrow> (case v of JObj m \<Rightarrow> True | _ \<Rightarrow> False))
      | _ \<Rightarrow> False)"

definition content_of :: "json \<Rightarrow> json" where
  "content_of msg =
     (if has_key (record_of msg) ''message'' then dget (message_of msg) ''content''
      else dget (record_of msg) ''content'')"

definition text_item_ok :: "json \<Rightarrow> bool" where
  "text_item_ok item =
     (case item of
        JObj d \<Rightarrow>
          (if dget d ''type'' = JStr ''text'' then is_str (dget_default d ''text'' (JStr [])) else True)
      | _ \<Rightarrow> True)"

definition blocks_ok :: "json \<Rightarrow> bool" where
  "blocks_ok c = (case c of JArr items \<Rightarrow> list_all text_item_ok items | _ \<Rightarrow> True)"

definition count_ok :: "dict \<Rightarrow> string \<Rightarrow> bool" where
  "count_ok u k = (case map_of u k of None \<Rightarrow> True | Some v \<Rightarrow> is_number v)"

definition usage_ok :: "json \<Rightarrow> bool" where
  "usage_ok usage =
     (if py_truthy usage then
        (case usage of
           JObj u \<Rightarrow>
             count_ok u ''input_tokens'' \<and> count_ok u ''output_tokens'' \<and>
             count_ok u ''cache_creation_input_tokens'' \<and> count_ok u ''cache_read_input_tokens''
         | _ \<Rightarrow> False)
      else True)"

definition write_tool :: "json \<Rightarrow> bool" where
  "write_tool name = (name = JStr ''Write'' \<or> name = JStr ''Edit'' \<or> name = JStr ''MultiEdit'')"

definition input_ok :: "json \<Rightarrow> json \<Rightarrow> bool" where
  "input_ok name tool_input =
     (case tool_input of
        JObj d \<Rightarrow>
          (if write_tool name
           then (let c = dget_default d ''content'' (JStr []) in \<not> py_truthy c \<or> is_str c)
           else True)
      | _ \<Rightarrow> True)"

definition duration_ok :: "json \<Rightarrow> bool" where
  "duration_ok v =
     (if py_truthy v
      then (case v of JInt n \<Rightarrow> float_convertible n | JBool b \<Rightarrow> True | _ \<Rightarrow> False)
      else True)"

definition meta_ok :: "json \<Rightarrow> bool" where
  "meta_ok v = (case v of JNull \<Rightarrow> True | JObj m \<Rightarrow> duration_ok (dget m ''duration_ms'') | _ \<Rightarrow> False)"

definition entry_ok :: "dict \<Rightarrow> bool" where
  "entry_ok d =
     (input_ok (dget d ''name'') (dget d ''input'') \<and> blocks_ok (dget d ''output'') \<and>
      meta_ok (dget d ''result_metadata''))"

definition tool_call_ok :: "json \<Rightarrow> bool" where
  "tool_call_ok tc =
     (hashable (call_id tc) \<and>
      input_ok (dget_default (record_of tc) ''name'' (JStr ''unknown''))
        (dget_default (record_of tc) ''input'' (JObj [])))"

definition assistant_ok :: "json \<Rightarrow> bool" where
  "assistant_ok msg =
     (record_ok msg \<and> blocks_ok (content_of msg) \<and>
      (case content_of msg of
         JArr items \<Rightarrow> list_all tool_call_ok (filter (is_typed ''tool_use'') items)
       | _ \<Rightarrow> True) \<and>
      usage_ok (dget (message_of msg) ''usage''))"

definition metadata_keys :: "string list" where
  "metadata_keys = [''durationMs'', ''numFiles'', ''filenames'', ''truncated'']"

definition tool_use_result_ok :: "json \<Rightarrow> bool" where
  "tool_use_result_ok tur =
     (if py_truthy tur then
        (case tur of
           JObj d \<Rightarrow> duration_ok (dget d ''durationMs'')
         | JStr s \<Rightarrow> list_all (\<lambda>k. \<not> is_substring k s) metadata_keys
         | _ \<Rightarrow> False)
      else True)"

definition result_item_ok :: "json \<Rightarrow> bool" where
  "result_item_ok item =
     (if is_typed ''tool_result'' item
      then hashable (dget (record_of item) ''tool_use_id'') \<and>
           blocks_ok (dget (record_of item) ''content'')
      else True)"

definition result_ok :: "json \<Rightarrow> bool" where
  "result_ok tr =
     (record_ok tr \<and>
      tool_use_result_ok (dget_default (record_of tr) ''toolUseResult'' (JObj [])) \<and>
      (case content_of tr of JArr items \<Rightarrow> list_all result_item_ok items | _ \<Rightarrow> True))"

definition first_time :: "env \<Rightarrow> json list \<Rightarrow> datetime option" where
  "first_time E assistant_msgs =
     (case assistant_msgs of
        [] \<Rightarrow> None
      | a # _ \<Rightarrow>
          if has_key (record_of a) ''message''
          then parse_if_truthy E (dget (record_of a) ''timestamp'') else None)"

fun same_kind :: "datetime option \<Rightarrow> datetime option \<Rightarrow> bool" where
  "same_kind (Some (Naive u)) (Some (Aware a)) = False"
| "same_kind (Some (Aware u)) (Some (Naive a)) = False"
| "same_kind _ _ = True"

definition well_typed_turn :: "env \<Rightarrow> json \<Rightarrow> json list \<Rightarrow> json list \<Rightarrow> bool" where
  "well_typed_turn E user_msg assistant_msgs tool_results =
     (record_ok user_msg \<and> blocks_ok (content_of user_msg) \<and>
      list_all assistant_ok assistant_msgs \<and> list_all result_ok tool_results \<and>
      same_kind (parse_if_truthy E (dget (record_of user_msg) ''timestamp''))
        (first_time E assistant_msgs))"

definition first_model :: "json list \<Rightarrow> json option" where
  "first_model assistant_msgs =
     (case assistant_msgs of [] \<Rightarrow> None | a # _ \<Rightarrow> map_of (message_of a) ''model'')"

definition first_usage :: "json list \<Rightarrow> json" where
  "first_usage assistant_msgs =
     (case assistant_msgs of [] \<Rightarrow> JNull | a # _ \<Rightarrow> dget (message_of a) ''usage'')"

lemma record_ok_content: "record_ok msg \<Longrightarrow> get_content msg = Inr (content_of msg)"
  by (cases msg)
     (auto simp: record_ok_def content_of_def has_key_def record_of_def message_of_def dget_def
           split: option.splits json.splits)

lemma is_str_JStr: "is_str v \<Longrightarrow> \<exists>s. v = JStr s"
  by (cases v) (simp_all add: is_str_def)

lemma text_parts_strs: "list_all text_item_ok items \<Longrightarrow> list_all is_str (text_parts items)"
  by (induction items rule: text_parts.induct) (auto simp: text_item_ok_def is_str_def)

lemma py_join_strs: "list_all is_str ps \<Longrightarrow> \<exists>s. py_join ps = Inr s"
proof (induction ps)
  case (Cons p ps)
  then obtain s where p: "p = JStr s" by (auto dest: is_str_JStr)
  from Cons obtain r where r: "py_join ps = Inr r" by auto
  show ?case by (cases ps) (use p r in auto)
qed simp

lemma get_text_content_ok:
  assumes "record_ok msg" and "blocks_ok (content_of msg)"
  shows "\<exists>s. get_text_content msg = Inr s"
proof (cases "content_of msg")
  case (JArr items)
  with assms(2) have "list_all text_item_ok items" by (simp add: blocks_ok_def)
  from py_join_strs[OF text_parts_strs[OF this]] JArr show ?thesis
    by (simp add: get_text_content_def record_ok_content[OF assms(1)])
qed (simp_all add: get_text_content_def record_ok_content[OF assms(1)])

lemma user_timestamp_ok:
  "record_ok msg \<Longrightarrow> user_timestamp_of msg = Inr (dget (record_of msg) ''timestamp'')"
  by (cases msg) (simp_all add: record_ok_def user_timestamp_of_def record_of_def)

lemma first_assistant_info_ok:
  assumes "list_all record_ok assistant_msgs"
  shows "\<exists>info. first_assistant_info E assistant_msgs = Inr info \<and>
           info_time info = first_time E assistant_msgs \<and>
           info_usage info = (if assistant_msgs \<noteq> [] \<and> has_key (record_of (hd assistant_msgs)) ''message''
                              then first_usage assistant_msgs else JNull) \<and>
           (first_model assistant_msgs = None \<longrightarrow> info_model info = JStr ''claude'')"
proof (cases assistant_msgs)
  case Nil
  then show ?thesis by (simp add: first_assistant_info_def no_info_def first_time_def first_model_def)
next
  case (Cons a as)
  with assms have "record_ok a" by simp
  then show ?thesis
    by (cases a)
       (auto simp: Cons record_ok_def first_assistant_info_def no_info_def first_time_def
             first_model_def first_usage_def has_key_def record_of_def message_of_def dget_def
             dget_default_def
             split: option.splits json.splits)
qed

lemma root_latency_ok: "same_kind u a \<Longrightarrow> \<exists>l. root_latency u a = Inr l"
  by (cases "(u, a)" rule: same_kind.cases) (auto simp: root_latency_def split: option.splits)

lemma root_latency_none: "u = None \<or> a = None \<Longrightarrow> root_latency u a = Inr None"
  by (auto simp: root_latency_def split: option.splits)

lemma is_number_cases: "is_number v \<Longrightarrow> (\<exists>n. v = JInt n) \<or> (\<exists>b. v = JBool b)"
  by (cases v) (simp_all add: is_number_def)

lemma count_default: "count_ok u k \<Longrightarrow> is_number (dget_default u k (JInt 0))"
  by (auto simp: count_ok_def dget_default_def is_number_def split: option.splits)

lemma py_add_numbers: "is_number a \<Longrightarrow> is_number b \<Longrightarrow> \<exists>n. py_add a b = Inr (JInt n)"
  by (auto dest!: is_number_cases)

lemma py_positive_number: "is_number a \<Longrightarrow> \<exists>b. py_positive a = Inr b"
  by (auto dest!: is_number_cases)

lemma usage_fields_ok: "usage_ok usage \<Longrightarrow> \<exists>d. usage_fields usage = Inr d"
proof (cases "py_truthy usage")
  case False
  then show ?thesis by (simp add: usage_fields_def)
next
  case True
  assume "usage_ok usage"
  with True obtain u where u: "usage = JObj u"
    and c: "count_ok u ''input_tokens''" "count_ok u ''output_tokens''"
      "count_ok u ''cache_creation_input_tokens''" "count_ok u ''cache_read_input_tokens''"
    by (cases usage) (simp_all add: usage_ok_def)
  from py_add_numbers[OF count_default[OF c(1)] count_default[OF c(2)]] obtain n where
    n: "py_add (dget_default u ''input_tokens'' (JInt 0)) (dget_default u ''output_tokens'' (JInt 0)) = Inr (JInt n)"
    by blast
  from py_positive_number[OF count_default[OF c(3)]] obtain b1 where
    b1: "py_positive (dget_default u ''cache_creation_input_tokens'' (JInt 0)) = Inr b1" by blast
  from py_positive_number[OF count_default[OF c(4)]] obtain b2 where
    b2: "py_positive (dget_default u ''cache_read_input_tokens'' (JInt 0)) = Inr b2" by blast
  show ?thesis
    using True by (simp add: usage_fields_def u Let_def n b1 b2)
qed

lemma usage_fields_no_latency:
  assumes "usage_fields usage = Inr d"
  shows "map_of d ''latency'' = None"
proof (cases "py_truthy usage")
  case False
  with assms show ?thesis by (simp add: usage_fields_def)
next
  case True
  with assms obtain u where "usage = JObj u"
    by (cases usage) (simp_all add: usage_fields_def)
  with assms True show ?thesis
    by (auto simp: usage_fields_def Let_def bind_r_Inr)
qed

lemma usage_fields_none: "\<not> py_truthy usage \<Longrightarrow> usage_fields usage = Inr []"
  by (simp add: usage_fields_def)

lemma thinking_loop_ok:
  "list_all record_ok msgs \<Longrightarrow> \<exists>ths. thinking_loop session_id turn_num tstr msgs acc = Inr ths"
proof (induction session_id turn_num tstr msgs acc rule: thinking_loop.induct)
  case (2 session_id turn_num timestamp_str d msgs acc)
  then show ?case
    by (auto simp: record_ok_def has_key_def dget_def split: option.splits json.splits)
qed simp_all


lemma hashable_key: "hashable v \<Longrightarrow> \<exists>k. hash_key v = Inr k"
  by (cases v) (simp_all add: hashable_def)

lemma format_tool_input_ok: "input_ok name tool_input \<Longrightarrow> \<exists>s. format_tool_input E name tool_input = Inr s"
proof (cases tool_input)
  case (JObj d)
  assume ok: "input_ok name tool_input"
  show ?thesis
  proof (cases "write_tool name")
    case True
    with ok JObj have c: "\<not> py_truthy (dget_default d ''content'' (JStr [])) \<or>
                          is_str (dget_default d ''content'' (JStr []))"
      by (simp add: input_ok_def Let_def)
    have "\<exists>s. format_write_input E d = Inr s"
    proof (cases "py_truthy (dget_default d ''content'' (JStr []))")
      case False
      then show ?thesis by (simp add: format_write_input_def Let_def)
    next
      case t: True
      with c obtain s where "dget_default d ''content'' (JStr []) = JStr s"
        by (auto dest: is_str_JStr)
      then show ?thesis by (simp add: format_write_input_def Let_def)
    qed
    with True JObj show ?thesis
      by (auto simp: format_tool_input_def write_tool_def)
  next
    case False
    with JObj show ?thesis by (simp add: format_tool_input_def write_tool_def)
  qed
qed (simp_all add: format_tool_input_def)

lemma is_str_JStr_iff: "is_str (JStr s)"
  by (simp add: is_str_def)

lemma truncated_part_str: "\<exists>ps. truncated_part (JStr s) t = Inr ps \<and> list_all is_str ps"
  by (simp add: truncated_part_def Let_def is_str_def)

lemma output_parts_ok:
  "list_all text_item_ok items \<Longrightarrow> \<exists>ps. output_parts E items t = Inr ps \<and> list_all is_str ps"
proof (induction items arbitrary: t)
  case (Cons item items)
  then have rest: "\<And>t. \<exists>ps. output_parts E items t = Inr ps \<and> list_all is_str ps" by simp
  show ?case
  proof (cases item)
    case (JObj d)
    show ?thesis
    proof (cases "dget d ''type'' = JStr ''text''")
      case True
      with Cons.prems JObj obtain s where s: "dget_default d ''text'' (JStr []) = JStr s"
        by (auto simp: text_item_ok_def dest: is_str_JStr)
      from rest[of "t + length s"] truncated_part_str[of s t] show ?thesis
        by (auto simp: JObj True s Let_def is_str_JStr_iff)
    next
      case False
      from rest[of t] rest[of "t + length (take 500 (py_str (py_repr E) (JObj d)))"] show ?thesis
        by (auto simp: JObj False Let_def is_str_JStr_iff)
    qed
  next
    case (JStr s)
    from rest[of "t + length s"] truncated_part_str[of s t] show ?thesis
      by (auto simp: JStr is_str_JStr_iff)
  qed (use rest[of t] in auto)
qed simp

lemma format_tool_output_ok: "blocks_ok out \<Longrightarrow> \<exists>s. format_tool_output E name out = Inr s"
proof (cases out)
  case (JArr items)
  assume "blocks_ok out"
  with JArr have "list_all text_item_ok items" by (simp add: blocks_ok_def)
  from output_parts_ok[OF this, of E 0] obtain ps where
    "output_parts E items 0 = Inr ps" "list_all is_str ps" by blast
  with py_join_strs[of ps] JArr show ?thesis
    by (auto simp: format_tool_output_def)
qed (simp_all add: format_tool_output_def)

lemma div_1000_ok: "duration_ok v \<Longrightarrow> py_truthy v \<Longrightarrow> \<exists>l. div_1000 v = Inr l"
  by (cases v) (simp_all add: duration_ok_def)

lemma tool_span_ok:
  assumes "entry_ok d"
  shows "\<exists>sp. tool_span E session_id turn_num tstr sstr d k = Inr sp"
proof -
  from assms have i: "input_ok (dget d ''name'') (dget d ''input'')"
    and o: "blocks_ok (dget d ''output'')" and m: "meta_ok (dget d ''result_metadata'')"
    by (simp_all add: entry_ok_def)
  from format_tool_input_ok[OF i] obtain fi where
    fi: "format_tool_input E (dget d ''name'') (dget d ''input'') = Inr fi" by blast
  from format_tool_output_ok[OF o] obtain fo where
    fo: "format_tool_output E (dget d ''name'') (dget d ''output'') = Inr fo" by blast
  show ?thesis
  proof (cases "py_truthy (dget d ''result_metadata'') \<and>
                py_truthy (dget (record_of (dget d ''result_metadata'')) ''duration_ms'')")
    case True
    with m have "duration_ok (dget (record_of (dget d ''result_metadata'')) ''duration_ms'')"
      by (cases "dget d ''result_metadata''") (simp_all add: meta_ok_def record_of_def)
    from div_1000_ok[OF this] True obtain l where
      "div_1000 (dget (record_of (dget d ''result_metadata'')) ''duration_ms'') = Inr l" by blast
    with True show ?thesis by (simp add: tool_span_def Let_def fi fo)
  next
    case False
    then show ?thesis by (auto simp: tool_span_def Let_def fi fo)
  qed
qed

lemma tool_spans_ok:
  "list_all (\<lambda>e. entry_ok (snd e)) tm \<Longrightarrow>
   \<exists>sps. tool_spans E session_id turn_num tstr sstr tm k = Inr sps"
proof (induction tm arbitrary: k)
  case (Cons e tm)
  obtain key d where e: "e = (key, d)" by (cases e)
  from Cons.prems e have "entry_ok d" by simp
  from tool_span_ok[OF this] obtain sp where
    "tool_span E session_id turn_num tstr sstr d (k + 1) = Inr sp" by blast
  moreover from Cons obtain sps where
    "tool_spans E session_id turn_num tstr sstr tm (k + 1) = Inr sps" by auto
  ultimately show ?case by (simp add: e)
qed simp

lemma entries_ok_update:
  "list_all (\<lambda>e. entry_ok (snd e)) tm \<Longrightarrow> entry_ok v \<Longrightarrow>
   list_all (\<lambda>e. entry_ok (snd e)) (AList.update k v tm)"
  using set_update_subset[of k v tm] by (auto simp: list_all_iff)

lemma tool_entry_ok: "tool_call_ok tc \<Longrightarrow> entry_ok (tool_entry ts tc)"
  by (simp add: tool_call_ok_def entry_ok_def tool_entry_def dget_def blocks_ok_def meta_ok_def)

lemma add_tool_calls_ok:
  "list_all tool_call_ok tcs \<Longrightarrow> list_all (\<lambda>e. entry_ok (snd e)) tm \<Longrightarrow>
   \<exists>tm'. add_tool_calls ts tcs tm = Inr tm' \<and> list_all (\<lambda>e. entry_ok (snd e)) tm'"
proof (induction tcs arbitrary: tm)
  case (Cons tc tcs)
  from Cons.prems(1) have tc: "tool_call_ok tc" and tcs: "list_all tool_call_ok tcs" by simp_all
  from tc hashable_key obtain key where
    k: "hash_key (dget_default (record_of tc) ''id'' (JStr [])) = Inr key"
    by (auto simp: tool_call_ok_def call_id_def)
  from Cons.IH[OF tcs entries_ok_update[OF Cons.prems(2) tool_entry_ok[OF tc]]] k
  show ?case by simp
qed simp

lemma collect_tool_calls_ok:
  "list_all assistant_ok msgs \<Longrightarrow> list_all (\<lambda>e. entry_ok (snd e)) tm \<Longrightarrow>
   \<exists>tm'. collect_tool_calls msgs tm = Inr tm' \<and> list_all (\<lambda>e. entry_ok (snd e)) tm'"
proof (induction msgs arbitrary: tm)
  case (Cons msg msgs)
  from Cons.prems(1) have msg: "assistant_ok msg" and msgs: "list_all assistant_ok msgs" by simp_all
  from msg have c: "get_content msg = Inr (content_of msg)"
    by (simp add: assistant_ok_def record_ok_content)
  have "\<exists>tcs. get_tool_calls msg = Inr tcs \<and> list_all tool_call_ok tcs"
    using msg by (cases "content_of msg") (simp_all add: get_tool_calls_def c assistant_ok_def)
  then obtain tcs where g: "get_tool_calls msg = Inr tcs" and ok: "list_all tool_call_ok tcs" by blast
  from add_tool_calls_ok[OF ok Cons.prems(2)] obtain tm1 where
    a: "add_tool_calls (msg_timestamp msg) tcs tm = Inr tm1" "list_all (\<lambda>e. entry_ok (snd e)) tm1"
    by blast
  from Cons.IH[OF msgs a(2)] g a(1) show ?case by simp
qed simp


lemma meta_field_obj:
  "meta_field (JObj d) k k' m = Inr (if has_key d k then m @ [(k', dget d k)] else m)"
  by (simp add: meta_field_def)

lemma meta_field_str: "\<not> is_substring k s \<Longrightarrow> meta_field (JStr s) k k' m = Inr m"
  by (simp add: meta_field_def)

lemma duration_ok_null: "duration_ok JNull"
  by (simp add: duration_ok_def)

lemma result_metadata_ok:
  assumes "record_ok tr"
    and "tool_use_result_ok (dget_default (record_of tr) ''toolUseResult'' (JObj []))"
  shows "\<exists>meta. result_metadata tr = Inr meta \<and> duration_ok (dget meta ''duration_ms'')"
proof -
  from assms(1) obtain d where tr: "tr = JObj d" by (cases tr) (simp_all add: record_ok_def)
  let ?tur = "dget_default d ''toolUseResult'' (JObj [])"
  from assms(2) have ok: "tool_use_result_ok ?tur" by (simp add: tr record_of_def)
  show ?thesis
  proof (cases "py_truthy ?tur")
    case False
    then show ?thesis by (simp add: result_metadata_def tr Let_def dget_def duration_ok_null)
  next
    case True
    with ok consider (obj) u where "?tur = JObj u" "duration_ok (dget u ''durationMs'')"
      | (str) s where "?tur = JStr s" "list_all (\<lambda>k. \<not> is_substring k s) metadata_keys"
      by (cases ?tur) (simp_all add: tool_use_result_ok_def)
    then show ?thesis
    proof cases
      case obj
      with True show ?thesis
        by (simp add: result_metadata_def tr Let_def meta_field_obj dget_def duration_ok_null)
    next
      case str
      with True show ?thesis
        by (simp add: result_metadata_def tr Let_def meta_field_str metadata_keys_def dget_def
            duration_ok_null)
    qed
  qed
qed

lemma attach_ok:
  assumes "entry_ok d" and "blocks_ok (dget (record_of item) ''content'')"
    and "duration_ok (dget meta ''duration_ms'')"
  shows "entry_ok (attach item meta ts d)"
  using assms by (simp add: entry_ok_def attach_def dget_def update_conv' meta_ok_def)

lemma attach_results_ok:
  assumes "duration_ok (dget meta ''duration_ms'')"
  shows "list_all result_item_ok items \<Longrightarrow> list_all (\<lambda>e. entry_ok (snd e)) tm \<Longrightarrow>
         \<exists>tm'. attach_results meta ts items tm = Inr tm' \<and> list_all (\<lambda>e. entry_ok (snd e)) tm'"
proof (induction items arbitrary: tm)
  case (Cons item items)
  from Cons.prems(1) have item: "result_item_ok item" and items: "list_all result_item_ok items"
    by simp_all
  show ?case
  proof (cases "is_typed ''tool_result'' item")
    case False
    with Cons.IH[OF items Cons.prems(2)] show ?thesis by simp
  next
    case True
    with item have h: "hashable (dget (record_of item) ''tool_use_id'')"
      and b: "blocks_ok (dget (record_of item) ''content'')"
      by (simp_all add: result_item_ok_def)
    from hashable_key[OF h] obtain key where
      k: "hash_key (dget (record_of item) ''tool_use_id'') = Inr key" by blast
    have "list_all (\<lambda>e. entry_ok (snd e))
            (case map_of tm key of
               Some tool_data \<Rightarrow> AList.update key (attach item meta ts tool_data) tm
             | None \<Rightarrow> tm)"
    proof (cases "map_of tm key")
      case None
      with Cons.prems(2) show ?thesis by simp
    next
      case (Some d)
      then have "(key, d) \<in> set tm" by (rule map_of_SomeD)
      with Cons.prems(2) have "entry_ok d" by (auto simp: list_all_iff)
      from entries_ok_update[OF Cons.prems(2) attach_ok[OF this b assms]] Some
      show ?thesis by simp
    qed
    from Cons.IH[OF items this] True k show ?thesis by simp
  qed
qed simp

lemma correlate_ok:
  "list_all result_ok trs \<Longrightarrow> list_all (\<lambda>e. entry_ok (snd e)) tm \<Longrightarrow>
   \<exists>tm'. correlate trs tm = Inr tm' \<and> list_all (\<lambda>e. entry_ok (snd e)) tm'"
proof (induction trs arbitrary: tm)
  case (Cons tr trs)
  from Cons.prems(1) have tr: "result_ok tr" and trs: "list_all result_ok trs" by simp_all
  from tr have c: "get_content tr = Inr (content_of tr)"
    by (simp add: result_ok_def record_ok_content)
  from tr result_metadata_ok[of tr] obtain meta where
    m: "result_metadata tr = Inr meta" and dur: "duration_ok (dget meta ''duration_ms'')"
    by (auto simp: result_ok_def)
  have "\<exists>tm1. (case content_of tr of
                 JArr items \<Rightarrow> attach_results meta (msg_timestamp tr) items tm
               | _ \<Rightarrow> Inr tm) = Inr tm1 \<and> list_all (\<lambda>e. entry_ok (snd e)) tm1"
  proof (cases "content_of tr")
    case (JArr items)
    with tr have "list_all result_item_ok items" by (simp add: result_ok_def)
    from attach_results_ok[OF dur this Cons.prems(2)] JArr show ?thesis by simp
  qed (use Cons.prems(2) in simp_all)
  then obtain tm1 where a: "(case content_of tr of
                 JArr items \<Rightarrow> attach_results meta (msg_timestamp tr) items tm
               | _ \<Rightarrow> Inr tm) = Inr tm1" and ok1: "list_all (\<lambda>e. entry_ok (snd e)) tm1" by blast
  from Cons.IH[OF trs ok1] c m a show ?case by simp
qed simp



lemma demo_turn_well_typed:
  "well_typed_turn demo_env (user_rec ''2+2?'') [demo_turn_msg] [result_rec ''t1'' ''r'']"
  "first_model [demo_turn_msg] = None"
  "\<not> py_truthy (first_usage [demo_turn_msg])"
  "\<not> py_truthy (dget (record_of (user_rec ''2+2?'')) ''timestamp'')"
  by code_simp+


end
